theory Spec2Isabelle
  imports Main "HOL-Library.Word" "HOL-Library.Sublist"
begin

unbundle bit_operations_syntax

section \<open>Text\<close>

text \<open>
  A Python \<open>str\<close> is a sequence of Unicode code points, here a list of numbers below
  \<open>0x110000\<close>. \<open>ascii\<close> gives the code points of a literal of ASCII characters.
\<close>

type_synonym pystr = "nat list"

definition ascii :: "string \<Rightarrow> pystr" where
  "ascii s = map of_char s"

datatype exn =
  KeyError | TypeError | AttributeError | ValueError | UnicodeEncodeError | OverflowError
  | ProgrammingError | IntegrityError | TelegramError | RequestException | HTTPError
  | JSONDecodeError

text \<open>
  \<open>str.encode()\<close>: UTF-8. A surrogate (\<open>U+D800\<close> to \<open>U+DFFF\<close>), which \<open>json.loads\<close> lets
  into a string, has no encoding: \<open>UnicodeEncodeError\<close>.
\<close>

definition utf8_char :: "nat \<Rightarrow> nat list option" where
  "utf8_char c =
     (if c < 0x80 then Some [c]
      else if c < 0x800 then Some [0xC0 + c div 64, 0x80 + c mod 64]
      else if 0xD800 \<le> c \<and> c < 0xE000 then None
      else if c < 0x10000 then
        Some [0xE0 + c div 4096, 0x80 + c div 64 mod 64, 0x80 + c mod 64]
      else
        Some [0xF0 + c div 262144 mod 8, 0x80 + c div 4096 mod 64, 0x80 + c div 64 mod 64,
              0x80 + c mod 64])"

fun encode :: "pystr \<Rightarrow> exn + nat list" where
  "encode [] = Inr []"
| "encode (c # cs) =
     (case utf8_char c of
        None \<Rightarrow> Inl UnicodeEncodeError
      | Some bs \<Rightarrow> (case encode cs of Inl e \<Rightarrow> Inl e | Inr rest \<Rightarrow> Inr (bs @ rest)))"

section \<open>hashlib.md5\<close>

text \<open>
  \<open>hashlib.md5(data).hexdigest()\<close> is the MD5 digest of RFC 1321 of a sequence of bytes,
  printed as 32 lower-case hexadecimal digits. It is written out on 32-bit words so that
  \<open>generate_news_id\<close> computes.
\<close>

type_synonym word32 = "32 word"

definition md5_K :: "word32 list" where
  "md5_K =
    [0xd76aa478, 0xe8c7b756, 0x242070db, 0xc1bdceee,
     0xf57c0faf, 0x4787c62a, 0xa8304613, 0xfd469501,
     0x698098d8, 0x8b44f7af, 0xffff5bb1, 0x895cd7be,
     0x6b901122, 0xfd987193, 0xa679438e, 0x49b40821,
     0xf61e2562, 0xc040b340, 0x265e5a51, 0xe9b6c7aa,
     0xd62f105d, 0x02441453, 0xd8a1e681, 0xe7d3fbc8,
     0x21e1cde6, 0xc33707d6, 0xf4d50d87, 0x455a14ed,
     0xa9e3e905, 0xfcefa3f8, 0x676f02d9, 0x8d2a4c8a,
     0xfffa3942, 0x8771f681, 0x6d9d6122, 0xfde5380c,
     0xa4beea44, 0x4bdecfa9, 0xf6bb4b60, 0xbebfbc70,
     0x289b7ec6, 0xeaa127fa, 0xd4ef3085, 0x04881d05,
     0xd9d4d039, 0xe6db99e5, 0x1fa27cf8, 0xc4ac5665,
     0xf4292244, 0x432aff97, 0xab9423a7, 0xfc93a039,
     0x655b59c3, 0x8f0ccc92, 0xffeff47d, 0x85845dd1,
     0x6fa87e4f, 0xfe2ce6e0, 0xa3014314, 0x4e0811a1,
     0xf7537e82, 0xbd3af235, 0x2ad7d2bb, 0xeb86d391]"

definition md5_shift :: "nat list" where
  "md5_shift =
    [7, 12, 17, 22, 7, 12, 17, 22, 7, 12, 17, 22, 7, 12, 17, 22,
     5, 9, 14, 20, 5, 9, 14, 20, 5, 9, 14, 20, 5, 9, 14, 20,
     4, 11, 16, 23, 4, 11, 16, 23, 4, 11, 16, 23, 4, 11, 16, 23,
     6, 10, 15, 21, 6, 10, 15, 21, 6, 10, 15, 21, 6, 10, 15, 21]"

text \<open>A number as \<open>n\<close> little-endian bytes.\<close>

fun le_bytes :: "nat \<Rightarrow> nat \<Rightarrow> nat list" where
  "le_bytes 0 v = []"
| "le_bytes (Suc n) v = (v mod 256) # le_bytes n (v div 256)"

text \<open>Four little-endian bytes as a word; the blocks cut from a padded message.\<close>

fun le_word :: "nat list \<Rightarrow> word32" where
  "le_word [] = 0"
| "le_word (b # bs) = of_nat b + push_bit 8 (le_word bs)"

fun chunks :: "nat \<Rightarrow> nat \<Rightarrow> 'a list \<Rightarrow> 'a list list" where
  "chunks k 0 xs = []"
| "chunks k (Suc n) xs = take k xs # chunks k n (drop k xs)"

definition md5_pad :: "nat list \<Rightarrow> nat list" where
  "md5_pad bs =
     bs @ [0x80] @ replicate ((55 + 64 - length bs mod 64) mod 64) 0
        @ le_bytes 8 ((8 * length bs) mod 2 ^ 64)"

definition md5_round :: "word32 list \<Rightarrow> word32 \<times> word32 \<times> word32 \<times> word32 \<Rightarrow> nat
    \<Rightarrow> word32 \<times> word32 \<times> word32 \<times> word32" where
  "md5_round M st i =
     (case st of (A, B, C, D) \<Rightarrow>
        let (F, g) =
              (if i < 16 then ((B AND C) OR (NOT B AND D), i)
               else if i < 32 then ((D AND B) OR (NOT D AND C), (5 * i + 1) mod 16)
               else if i < 48 then (B XOR C XOR D, (3 * i + 5) mod 16)
               else (C XOR (B OR NOT D), (7 * i) mod 16));
            F' = F + A + md5_K ! i + M ! g
        in (D, B + word_rotl (md5_shift ! i) F', B, C))"

definition md5_block :: "word32 \<times> word32 \<times> word32 \<times> word32 \<Rightarrow> nat list
    \<Rightarrow> word32 \<times> word32 \<times> word32 \<times> word32" where
  "md5_block st blk =
     (case st of (a0, b0, c0, d0) \<Rightarrow>
        case foldl (md5_round (map le_word (chunks 4 16 blk))) st [0..<64] of
          (A, B, C, D) \<Rightarrow> (a0 + A, b0 + B, c0 + C, d0 + D))"

definition md5 :: "nat list \<Rightarrow> nat list" where
  "md5 data =
     (let padded = md5_pad data in
      case foldl md5_block (0x67452301, 0xefcdab89, 0x98badcfe, 0x10325476)
             (chunks 64 (length padded div 64) padded) of
        (a, b, c, d) \<Rightarrow> concat (map (\<lambda>w. le_bytes 4 (unat w)) [a, b, c, d]))"

definition hex_digit :: "nat \<Rightarrow> nat" where
  "hex_digit n = ascii ''0123456789abcdef'' ! (n mod 16)"

definition hexdigest :: "nat list \<Rightarrow> pystr" where
  "hexdigest bs = concat (map (\<lambda>b. [hex_digit (b div 16), hex_digit b]) bs)"

section \<open>Decoded JSON\<close>

text \<open>
  What \<open>response.json()\<close> returns: \<open>None\<close>, a \<open>bool\<close>, an \<open>int\<close>, a \<open>float\<close> (its 64 bits),
  a \<open>str\<close>, a \<open>list\<close>, or a \<open>dict\<close> with \<open>str\<close> keys, as the list of its items, each key
  once.
\<close>

datatype json =
  JNone
  | JBool bool
  | JInt int
  | JFloat "64 word"
  | JStr pystr
  | JList "json list"
  | JDict "(pystr \<times> json) list"

text \<open>\<open>v[key]\<close> with a \<open>str\<close> key, and \<open>v.get(key, default)\<close>.\<close>

definition subscript :: "json \<Rightarrow> pystr \<Rightarrow> exn + json" where
  "subscript v key =
     (case v of
        JDict items \<Rightarrow> (case map_of items key of None \<Rightarrow> Inl KeyError | Some x \<Rightarrow> Inr x)
      | _ \<Rightarrow> Inl TypeError)"

definition get_default :: "json \<Rightarrow> pystr \<Rightarrow> json \<Rightarrow> exn + json" where
  "get_default v key dflt =
     (case v of
        JDict items \<Rightarrow> Inr (case map_of items key of None \<Rightarrow> dflt | Some x \<Rightarrow> x)
      | _ \<Rightarrow> Inl AttributeError)"

text \<open>The truth value of \<open>v\<close>, as in \<open>if not v\<close>; a \<open>float\<close> is false when it is 0.0 or -0.0.\<close>

definition truthy :: "json \<Rightarrow> bool" where
  "truthy v =
     (case v of
        JNone \<Rightarrow> False
      | JBool b \<Rightarrow> b
      | JInt n \<Rightarrow> n \<noteq> 0
      | JFloat f \<Rightarrow> f \<noteq> 0 \<and> f \<noteq> 0x8000000000000000
      | JStr s \<Rightarrow> s \<noteq> []
      | JList xs \<Rightarrow> xs \<noteq> []
      | JDict items \<Rightarrow> items \<noteq> [])"

text \<open>
  \<open>for x in v\<close>: the elements of a \<open>list\<close>, the characters of a \<open>str\<close>, the keys of a
  \<open>dict\<close>; anything else is not iterable. And \<open>v[:5]\<close>, which a \<open>list\<close> and a \<open>str\<close>
  have; a \<open>dict\<close> refuses the slice as a key, the others have no subscript.
\<close>

definition iterate :: "json \<Rightarrow> exn + json list" where
  "iterate v =
     (case v of
        JStr s \<Rightarrow> Inr (map (\<lambda>c. JStr [c]) s)
      | JList xs \<Rightarrow> Inr xs
      | JDict items \<Rightarrow> Inr (map (\<lambda>(k, x). JStr k) items)
      | _ \<Rightarrow> Inl TypeError)"

definition first_five :: "json \<Rightarrow> exn + json" where
  "first_five v =
     (case v of
        JStr s \<Rightarrow> Inr (JStr (take 5 s))
      | JList xs \<Rightarrow> Inr (JList (take 5 xs))
      | _ \<Rightarrow> Inl TypeError)"

text \<open>\<open>v == 200\<close>: the \<open>int\<close> 200 or the \<open>float\<close> 200.0; \<open>True\<close> is 1.\<close>

definition equals_200 :: "json \<Rightarrow> bool" where
  "equals_200 v =
     (case v of JInt n \<Rightarrow> n = 200 | JFloat f \<Rightarrow> f = 0x4069000000000000 | _ \<Rightarrow> False)"

definition digit_char :: "nat \<Rightarrow> nat" where
  "digit_char n = 48 + n mod 10"

fun decimal :: "nat \<Rightarrow> pystr" where
  "decimal n = (if n < 10 then [digit_char n] else decimal (n div 10) @ [digit_char n])"

text \<open>
  \<open>str(v)\<close>, as an f-string formats \<open>v\<close>. The text of a \<open>float\<close>, a \<open>list\<close> or a \<open>dict\<close> is
  their \<open>repr\<close>, which is taken as given: a parameter. An \<open>int\<close> is printed in decimal
  (\<open>json.loads\<close> returns no \<open>int\<close> too long for \<open>str\<close> to print).
\<close>

definition py_str :: "(json \<Rightarrow> pystr) \<Rightarrow> json \<Rightarrow> pystr" where
  "py_str repr v =
     (case v of
        JNone \<Rightarrow> ascii ''None''
      | JBool b \<Rightarrow> (if b then ascii ''True'' else ascii ''False'')
      | JInt n \<Rightarrow> (if n < 0 then ascii ''-'' @ decimal (nat (- n)) else decimal (nat n))
      | JStr s \<Rightarrow> s
      | _ \<Rightarrow> repr v)"

section \<open>generate_news_id\<close>

definition generate_news_id :: "(json \<Rightarrow> pystr) \<Rightarrow> json \<Rightarrow> json \<Rightarrow> exn + pystr" where
  "generate_news_id repr title url =
     (case encode (py_str repr title @ py_str repr url) of
        Inl e \<Rightarrow> Inl e
      | Inr data \<Rightarrow> Inr (hexdigest (md5 data)))"

section \<open>str.strip, datetime.strptime, datetime.strftime\<close>

text \<open>
  \<open>not text.strip()\<close> holds exactly when every code point of \<open>text\<close> is whitespace for
  \<open>str.isspace\<close>.
\<close>

definition is_space :: "nat \<Rightarrow> bool" where
  "is_space c =
     ((9 \<le> c \<and> c \<le> 13) \<or> (28 \<le> c \<and> c \<le> 32) \<or> c = 0x85 \<or> c = 0xA0 \<or> c = 0x1680
      \<or> (0x2000 \<le> c \<and> c \<le> 0x200A) \<or> c = 0x2028 \<or> c = 0x2029 \<or> c = 0x202F
      \<or> c = 0x205F \<or> c = 0x3000)"

definition strip_is_empty :: "pystr \<Rightarrow> bool" where
  "strip_is_empty s = list_all is_space s"

record datetime =
  year :: nat
  month :: nat
  day :: nat
  hour :: nat
  minute :: nat
  second :: nat

text \<open>
  The decimal digits of Unicode 14 (the category \<open>Nd\<close>, which \<open>\d\<close> matches and \<open>int\<close>
  reads): 66 runs of ten code points, each from its zero to its nine.
\<close>

definition digit_zeros :: "nat list" where
  "digit_zeros =
    [0x30, 0x660, 0x6F0, 0x7C0, 0x966, 0x9E6, 0xA66, 0xAE6,
     0xB66, 0xBE6, 0xC66, 0xCE6, 0xD66, 0xDE6, 0xE50, 0xED0,
     0xF20, 0x1040, 0x1090, 0x17E0, 0x1810, 0x1946, 0x19D0, 0x1A80,
     0x1A90, 0x1B50, 0x1BB0, 0x1C40, 0x1C50, 0xA620, 0xA8D0, 0xA900,
     0xA9D0, 0xA9F0, 0xAA50, 0xABF0, 0xFF10, 0x104A0, 0x10D30, 0x11066,
     0x110F0, 0x11136, 0x111D0, 0x112F0, 0x11450, 0x114D0, 0x11650, 0x116C0,
     0x11730, 0x118E0, 0x11950, 0x11C50, 0x11D50, 0x11DA0, 0x16A60, 0x16AC0,
     0x16B50, 0x1D7CE, 0x1D7D8, 0x1D7E2, 0x1D7EC, 0x1D7F6, 0x1E140, 0x1E2F0,
     0x1E950, 0x1FBF0]"

definition digit_value :: "nat \<Rightarrow> nat option" where
  "digit_value c =
     (case find (\<lambda>z. z \<le> c \<and> c < z + 10) digit_zeros of
        None \<Rightarrow> None
      | Some z \<Rightarrow> Some (c - z))"

text \<open>An ASCII digit from \<open>lo\<close> to \<open>hi\<close>, as the class \<open>[lo-hi]\<close> matches it.\<close>

definition digit_in :: "nat \<Rightarrow> nat \<Rightarrow> nat \<Rightarrow> nat option" where
  "digit_in lo hi c = (if 48 + lo \<le> c \<and> c \<le> 48 + hi then Some (c - 48) else None)"

text \<open>
  The directives of \<open>_strptime\<close>, each on the whole text it has to match:
  \<open>%Y\<close> is \<open>\d\d\d\d\<close>, \<open>%m\<close> is \<open>1[0-2]|0[1-9]|[1-9]\<close>,
  \<open>%d\<close> is \<open>3[0-1]|[1-2]\d|0[1-9]|[1-9]| [1-9]\<close>, \<open>%H\<close> is \<open>2[0-3]|[0-1]\d|\d\<close>,
  \<open>%M\<close> is \<open>[0-5]\d|\d\<close>, \<open>%S\<close> is \<open>6[0-1]|[0-5]\d|\d\<close>. The value is what \<open>int\<close> reads.
\<close>

definition two :: "nat option \<Rightarrow> nat option \<Rightarrow> nat option" where
  "two a b = (case a of None \<Rightarrow> None | Some x \<Rightarrow> (case b of None \<Rightarrow> None | Some y \<Rightarrow> Some (10 * x + y)))"

definition first_of :: "nat option list \<Rightarrow> nat option" where
  "first_of alternatives = (case filter (\<lambda>r. r \<noteq> None) alternatives of [] \<Rightarrow> None | r # _ \<Rightarrow> r)"

definition directive_Y :: "pystr \<Rightarrow> nat option" where
  "directive_Y s =
     (case s of
        [a, b, c, d] \<Rightarrow> two (two (two (digit_value a) (digit_value b)) (digit_value c)) (digit_value d)
      | _ \<Rightarrow> None)"

definition directive_m :: "pystr \<Rightarrow> nat option" where
  "directive_m s =
     (case s of
        [a] \<Rightarrow> digit_in 1 9 a
      | [a, b] \<Rightarrow> first_of [two (digit_in 1 1 a) (digit_in 0 2 b), two (digit_in 0 0 a) (digit_in 1 9 b)]
      | _ \<Rightarrow> None)"

definition directive_d :: "pystr \<Rightarrow> nat option" where
  "directive_d s =
     (case s of
        [a] \<Rightarrow> digit_in 1 9 a
      | [a, b] \<Rightarrow>
          first_of [two (digit_in 3 3 a) (digit_in 0 1 b), two (digit_in 1 2 a) (digit_value b),
                    two (digit_in 0 0 a) (digit_in 1 9 b),
                    (if a = 0x20 then digit_in 1 9 b else None)]
      | _ \<Rightarrow> None)"

definition directive_H :: "pystr \<Rightarrow> nat option" where
  "directive_H s =
     (case s of
        [a] \<Rightarrow> digit_value a
      | [a, b] \<Rightarrow> first_of [two (digit_in 2 2 a) (digit_in 0 3 b), two (digit_in 0 1 a) (digit_value b)]
      | _ \<Rightarrow> None)"

definition directive_M :: "pystr \<Rightarrow> nat option" where
  "directive_M s =
     (case s of
        [a] \<Rightarrow> digit_value a
      | [a, b] \<Rightarrow> two (digit_in 0 5 a) (digit_value b)
      | _ \<Rightarrow> None)"

definition directive_S :: "pystr \<Rightarrow> nat option" where
  "directive_S s =
     (case s of
        [a] \<Rightarrow> digit_value a
      | [a, b] \<Rightarrow> first_of [two (digit_in 6 6 a) (digit_in 0 1 b), two (digit_in 0 5 a) (digit_value b)]
      | _ \<Rightarrow> None)"

text \<open>
  The text up to the first occurrence of a literal of the format, and the text after it.
  No directive matches a literal, so the directive before it has to match all of the
  former. The expression is compiled with \<open>IGNORECASE\<close>: \<open>T\<close> and \<open>Z\<close> also match in lower
  case.
\<close>

definition up_to :: "nat \<Rightarrow> nat \<Rightarrow> pystr \<Rightarrow> (pystr \<times> pystr) option" where
  "up_to upper lower s =
     (case dropWhile (\<lambda>c. c \<noteq> upper \<and> c \<noteq> lower) s of
        [] \<Rightarrow> None
      | c # rest \<Rightarrow> Some (takeWhile (\<lambda>c. c \<noteq> upper \<and> c \<noteq> lower) s, rest))"

definition is_leap :: "nat \<Rightarrow> bool" where
  "is_leap y = (y mod 4 = 0 \<and> (y mod 100 \<noteq> 0 \<or> y mod 400 = 0))"

definition days_in_month :: "nat \<Rightarrow> nat \<Rightarrow> nat" where
  "days_in_month y m =
     (if m = 2 then (if is_leap y then 29 else 28)
      else if m = 4 \<or> m = 6 \<or> m = 9 \<or> m = 11 then 30 else 31)"

text \<open>
  \<open>datetime.strptime(s, '%Y-%m-%dT%H:%M:%SZ')\<close> on a \<open>str\<close>; \<open>None\<close> is the \<open>ValueError\<close>:
  no match, text left after the \<open>Z\<close>, year 0, a day the month does not have, or a second
  above 59, which the directive reads and the constructor of \<open>datetime\<close> refuses.
\<close>

definition strptime :: "pystr \<Rightarrow> datetime option" where
  "strptime s =
     Option.bind (up_to 0x2D 0x2D s) (\<lambda>(sY, s).
     Option.bind (up_to 0x2D 0x2D s) (\<lambda>(sm, s).
     Option.bind (up_to 0x54 0x74 s) (\<lambda>(sd, s).
     Option.bind (up_to 0x3A 0x3A s) (\<lambda>(sH, s).
     Option.bind (up_to 0x3A 0x3A s) (\<lambda>(sM, s).
     Option.bind (up_to 0x5A 0x7A s) (\<lambda>(sS, s).
     Option.bind (directive_Y sY) (\<lambda>Y.
     Option.bind (directive_m sm) (\<lambda>m.
     Option.bind (directive_d sd) (\<lambda>d.
     Option.bind (directive_H sH) (\<lambda>H.
     Option.bind (directive_M sM) (\<lambda>M.
     Option.bind (directive_S sS) (\<lambda>S.
       if s = [] \<and> 1 \<le> Y \<and> d \<le> days_in_month Y m \<and> S \<le> 59
       then Some \<lparr>year = Y, month = m, day = d, hour = H, minute = M, second = S\<rparr>
       else None))))))))))))"

text \<open>The argument of \<open>strptime\<close> has to be a \<open>str\<close>.\<close>

definition strptime_arg :: "json \<Rightarrow> exn + datetime" where
  "strptime_arg v =
     (case v of
        JStr s \<Rightarrow> (case strptime s of None \<Rightarrow> Inl ValueError | Some dt \<Rightarrow> Inr dt)
      | _ \<Rightarrow> Inl TypeError)"

definition two_digits :: "nat \<Rightarrow> pystr" where
  "two_digits n = [digit_char (n div 10), digit_char n]"

text \<open>
  \<open>dt.strftime('%d.%m.%Y %H:%M')\<close>. \<open>%Y\<close> is the year in decimal as the C library
  prints it: four digits from the year 1000 on.
\<close>

definition strftime :: "datetime \<Rightarrow> pystr" where
  "strftime dt =
     two_digits (day dt) @ ascii ''.'' @ two_digits (month dt) @ ascii ''.'' @ decimal (year dt)
       @ ascii '' '' @ two_digits (hour dt) @ ascii '':'' @ two_digits (minute dt)"

section \<open>The outside world\<close>

text \<open>
  What \<open>requests.get\<close> does: it raises (timeout, no connection, a text it cannot send),
  or it returns a response with a status code and a body; the body is \<open>None\<close> when
  \<open>response.json()\<close> raises.
\<close>

datatype http_outcome = Raised | Response nat "json option"

text \<open>
  The effects of a run, in order: the HTTP requests issued (URL and the \<open>q\<close> parameter),
  the messages the chat transport accepted, and the lines logged.
\<close>

datatype event =
  HttpGet pystr pystr
  | SendMessage int pystr
  | ReplyText pystr
  | LogInfo
  | LogError

text \<open>
  The services answer as they please: the translator and the transport may answer each
  call differently, so they read the events so far. \<open>telegram\<close> tells whether a call of
  \<open>send_message\<close> or \<open>reply_text\<close> returns (\<open>False\<close>: it raises). \<open>py_repr\<close> is the \<open>repr\<close> of
  the interpreter for a \<open>float\<close>, a \<open>list\<close> or a \<open>dict\<close>.
\<close>

record world =
  news_api :: http_outcome
  translate_api :: "event list \<Rightarrow> pystr \<Rightarrow> http_outcome"
  telegram :: "event list \<Rightarrow> pystr \<Rightarrow> bool"
  py_repr :: "json \<Rightarrow> pystr"

section \<open>The table \<open>news\<close> and the connection\<close>

record news_row =
  row_id :: pystr
  row_title :: json
  row_title_ru :: json
  row_url :: json
  row_source :: json
  row_published_at :: datetime

text \<open>
  The process holds one connection \<open>conn\<close> with one cursor \<open>c\<close>. An \<open>INSERT\<close> opens a
  transaction when none is open; its rows are seen by the connection at once and reach
  the file at \<open>conn.commit()\<close>. \<open>committed\<close> is the table in the file, \<open>pending\<close> the
  rows of the open transaction, \<open>events\<close> the effects so far.
\<close>

record state =
  committed :: "news_row list"
  pending :: "news_row list"
  events :: "event list"

definition emit :: "event \<Rightarrow> state \<Rightarrow> state" where
  "emit e s = s\<lparr>events := events s @ [e]\<rparr>"

text \<open>\<open>c.execute('SELECT id FROM news WHERE id=?', (news_id,)); c.fetchone()\<close>, as a truth value.\<close>

definition select_id :: "state \<Rightarrow> pystr \<Rightarrow> bool" where
  "select_id s news_id = (news_id \<in> set (map row_id (committed s @ pending s)))"

text \<open>
  A parameter of a statement: \<open>sqlite3\<close> takes \<open>None\<close>, \<open>bool\<close>, \<open>float\<close>, an \<open>int\<close> of 64
  bits and a \<open>str\<close> that can be encoded; \<open>Some\<close> is what it raises for another value.
\<close>

definition bind_parameter :: "json \<Rightarrow> exn option" where
  "bind_parameter v =
     (case v of
        JInt n \<Rightarrow> (if - (2 ^ 63) \<le> n \<and> n < 2 ^ 63 then None else Some OverflowError)
      | JStr s \<Rightarrow> (case encode s of Inl e \<Rightarrow> Some e | Inr _ \<Rightarrow> None)
      | JList xs \<Rightarrow> Some ProgrammingError
      | JDict items \<Rightarrow> Some ProgrammingError
      | _ \<Rightarrow> None)"

text \<open>
  \<open>c.execute('INSERT INTO news VALUES (?, ?, ?, ?, ?, ?)', ...)\<close>: the parameters are bound
  in order, then the row is inserted; \<open>id\<close> is the primary key.
\<close>

definition execute_insert :: "news_row \<Rightarrow> state \<Rightarrow> (exn + unit) \<times> state" where
  "execute_insert r s =
     (case List.map_filter bind_parameter
             [JStr (row_id r), row_title r, row_title_ru r, row_url r, row_source r] of
        e # _ \<Rightarrow> (Inl e, s)
      | [] \<Rightarrow>
          if select_id s (row_id r) then (Inl IntegrityError, s)
          else (Inr (), s\<lparr>pending := pending s @ [r]\<rparr>))"

definition commit :: "state \<Rightarrow> state" where
  "commit s = s\<lparr>committed := committed s @ pending s, pending := []\<rparr>"

text \<open>
  Start of the process on a database file (\<open>None\<close>: the file has no table \<open>news\<close>):
  \<open>sqlite3.connect\<close>, \<open>CREATE TABLE IF NOT EXISTS news\<close>, \<open>conn.commit()\<close>.
  End of the process: \<open>conn.close()\<close>, or a crash; the open transaction is lost.
\<close>

definition startup :: "news_row list option \<Rightarrow> state" where
  "startup file =
     \<lparr>committed = (case file of None \<Rightarrow> [] | Some table \<Rightarrow> table), pending = [], events = []\<rparr>"

definition shutdown :: "state \<Rightarrow> news_row list option" where
  "shutdown s = Some (committed s)"

section \<open>Exceptions\<close>

text \<open>
  A statement that may raise returns \<open>Inl\<close> of the exception, with the state it left.
  \<open>and_then\<close> runs the next statement unless the first one raised; \<open>pure\<close> is an
  expression that only reads.
\<close>

definition and_then ::
  "(exn + 'a) \<times> state \<Rightarrow> ('a \<Rightarrow> state \<Rightarrow> (exn + 'b) \<times> state) \<Rightarrow> (exn + 'b) \<times> state" where
  "and_then r f = (case r of (Inl e, s) \<Rightarrow> (Inl e, s) | (Inr v, s) \<Rightarrow> f v s)"

definition pure :: "exn + 'a \<Rightarrow> state \<Rightarrow> (exn + 'a) \<times> state" where
  "pure r s = (r, s)"

definition raise_for_status :: "nat \<Rightarrow> bool" where
  "raise_for_status status = (400 \<le> status \<and> status < 600)"

section \<open>translate_text\<close>

definition TRANSLATE_API_URL :: pystr where
  "TRANSLATE_API_URL = ascii ''https://api.mymemory.translated.net/get''"

text \<open>The body of the \<open>try\<close>, from the outcome of \<open>requests.get\<close>.\<close>

definition translate_try :: "http_outcome \<Rightarrow> json \<Rightarrow> exn + json" where
  "translate_try r text =
     (case r of
        Raised \<Rightarrow> Inl RequestException
      | Response status body \<Rightarrow>
          if raise_for_status status then Inl HTTPError
          else (case body of
             None \<Rightarrow> Inl JSONDecodeError
           | Some result \<Rightarrow>
              (case subscript result (ascii ''responseStatus'') of
                 Inl e \<Rightarrow> Inl e
               | Inr rs \<Rightarrow>
                  if equals_200 rs then
                    (case subscript result (ascii ''responseData'') of
                       Inl e \<Rightarrow> Inl e
                     | Inr rd \<Rightarrow> subscript rd (ascii ''translatedText''))
                  else Inr text)))"

text \<open>\<open>text.strip()\<close> is before the \<open>try\<close>: a \<open>text\<close> that is no \<open>str\<close> raises \<open>AttributeError\<close>.\<close>

definition translate_text :: "world \<Rightarrow> json \<Rightarrow> state \<Rightarrow> (exn + json) \<times> state" where
  "translate_text w text s =
     (case text of
        JStr t \<Rightarrow>
          if strip_is_empty t then (Inr text, s)
          else
            (let s1 = emit (HttpGet TRANSLATE_API_URL t) s in
             case translate_try (translate_api w (events s) t) text of
               Inr v \<Rightarrow> (Inr v, s1)
             | Inl e \<Rightarrow> (Inr text, emit LogError s1))
      | _ \<Rightarrow> (Inl AttributeError, s))"

section \<open>fetch_bitcoin_news\<close>

definition NEWS_API_URL :: pystr where
  "NEWS_API_URL = ascii ''https://newsapi.org/v2/everything''"

definition fetch_try :: "http_outcome \<Rightarrow> exn + json" where
  "fetch_try r =
     (case r of
        Raised \<Rightarrow> Inl RequestException
      | Response status body \<Rightarrow>
          if raise_for_status status then Inl HTTPError
          else (case body of
             None \<Rightarrow> Inl JSONDecodeError
           | Some result \<Rightarrow> get_default result (ascii ''articles'') (JList [])))"

definition fetch_bitcoin_news :: "world \<Rightarrow> state \<Rightarrow> (exn + json) \<times> state" where
  "fetch_bitcoin_news w s =
     (let s1 = emit (HttpGet NEWS_API_URL (ascii ''Bitcoin OR BTC'')) s in
      case fetch_try (news_api w) of
        Inr v \<Rightarrow> (Inr v, s1)
      | Inl e \<Rightarrow> (Inr (JList []), emit LogError s1))"

text \<open>The chat transport: \<open>context.bot.send_message\<close> and \<open>update.message.reply_text\<close>.\<close>

definition send_message :: "world \<Rightarrow> int \<Rightarrow> pystr \<Rightarrow> state \<Rightarrow> (exn + unit) \<times> state" where
  "send_message w chat_id text s =
     (if telegram w (events s) text then (Inr (), emit (SendMessage chat_id text) s)
      else (Inl TelegramError, s))"

definition reply_text :: "world \<Rightarrow> pystr \<Rightarrow> state \<Rightarrow> (exn + unit) \<times> state" where
  "reply_text w text s =
     (if telegram w (events s) text then (Inr (), emit (ReplyText text) s)
      else (Inl TelegramError, s))"

section \<open>The texts of the messages\<close>

text \<open>The literals of the f-strings: an emoji or a Cyrillic word, then ASCII.\<close>

definition newspaper :: pystr where \<comment> \<open>U+1F4F0 and a space\<close>
  "newspaper =
    [0x1F4F0, 0x20]"

definition source_label :: pystr where \<comment> \<open>U+1F517, a space, an underscore, "Istochnik: "\<close>
  "source_label =
    [0x1F517, 0x20, 0x5F, 0x418, 0x441, 0x442, 0x43E, 0x447,
     0x43D, 0x438, 0x43A, 0x3A, 0x20]"

definition date_label :: pystr where \<comment> \<open>U+1F4C6, a space, an underscore, "Data: "\<close>
  "date_label =
    [0x1F4C6, 0x20, 0x5F, 0x414, 0x430, 0x442, 0x430, 0x3A,
     0x20]"

definition read_original :: pystr where \<comment> \<open>"[Chitat' original]("\<close>
  "read_original =
    [0x5B, 0x427, 0x438, 0x442, 0x430, 0x442, 0x44C, 0x20,
     0x43E, 0x440, 0x438, 0x433, 0x438, 0x43D, 0x430, 0x43B,
     0x5D, 0x28]"

definition read_article :: pystr where \<comment> \<open>"[Chitat' stat'yu]("\<close>
  "read_article =
    [0x5B, 0x427, 0x438, 0x442, 0x430, 0x442, 0x44C, 0x20,
     0x441, 0x442, 0x430, 0x442, 0x44C, 0x44E, 0x5D, 0x28]"

definition news_not_found :: pystr where \<comment> \<open>U+1F614 "Novosti ne naideny"\<close>
  "news_not_found =
    [0x1F614, 0x20, 0x41D, 0x43E, 0x432, 0x43E, 0x441, 0x442,
     0x438, 0x20, 0x43D, 0x435, 0x20, 0x43D, 0x430, 0x439,
     0x434, 0x435, 0x43D, 0x44B]"

definition no_new_news :: pystr where \<comment> \<open>U+1F504 "Novykh novostei net"\<close>
  "no_new_news =
    [0x1F504, 0x20, 0x41D, 0x43E, 0x432, 0x44B, 0x445, 0x20,
     0x43D, 0x43E, 0x432, 0x43E, 0x441, 0x442, 0x435, 0x439,
     0x20, 0x43D, 0x435, 0x442]"

definition fetch_error :: pystr where \<comment> \<open>U+26A0 U+FE0F "Oshibka pri poluchenii novostei"\<close>
  "fetch_error =
    [0x26A0, 0xFE0F, 0x20, 0x41E, 0x448, 0x438, 0x431, 0x43A,
     0x430, 0x20, 0x43F, 0x440, 0x438, 0x20, 0x43F, 0x43E,
     0x43B, 0x443, 0x447, 0x435, 0x43D, 0x438, 0x438, 0x20,
     0x43D, 0x43E, 0x432, 0x43E, 0x441, 0x442, 0x435, 0x439]"

section \<open>check_and_send_news\<close>

text \<open>An entry of \<open>new_articles\<close>.\<close>

record new_article =
  na_id :: pystr
  na_title :: json
  na_url :: json
  na_source :: json
  na_published_at :: datetime

text \<open>The body of the inner \<open>try\<close>, up to \<open>news_id\<close>.\<close>

definition read_article_fields ::
  "world \<Rightarrow> json \<Rightarrow> state \<Rightarrow> (exn + new_article) \<times> state" where
  "read_article_fields w article s =
     and_then (pure (subscript article (ascii ''title'')) s) (\<lambda>title s.
     and_then (pure (subscript article (ascii ''url'')) s) (\<lambda>url s.
     and_then (pure (subscript article (ascii ''source'')) s) (\<lambda>src s.
     and_then (pure (subscript src (ascii ''name'')) s) (\<lambda>source s.
     and_then (pure (subscript article (ascii ''publishedAt'')) s) (\<lambda>p s.
     and_then (pure (strptime_arg p) s) (\<lambda>published_at s.
     and_then (pure (generate_news_id (py_repr w) title url) s) (\<lambda>news_id s.
       (Inr \<lparr>na_id = news_id, na_title = title, na_url = url,
             na_source = source, na_published_at = published_at\<rparr>, s))))))))"

text \<open>The first loop: \<open>for article in articles\<close>, with its \<open>try\<close> and \<open>except\<close>.\<close>

fun collect_new ::
  "world \<Rightarrow> json list \<Rightarrow> new_article list \<Rightarrow> state \<Rightarrow> new_article list \<times> state" where
  "collect_new w [] new_articles s = (new_articles, s)"
| "collect_new w (a # rest) new_articles s =
     (case read_article_fields w a s of
        (Inl e, s1) \<Rightarrow> collect_new w rest new_articles (emit LogError s1)
      | (Inr na, s1) \<Rightarrow>
          if select_id s1 (na_id na) then collect_new w rest new_articles s1
          else collect_new w rest (new_articles @ [na]) s1)"

definition scheduled_message :: "world \<Rightarrow> json \<Rightarrow> new_article \<Rightarrow> pystr" where
  "scheduled_message w translated_title a =
     newspaper @ ascii ''*'' @ py_str (py_repr w) translated_title @ ascii ''*'' @ [0x0A]
       @ source_label @ py_str (py_repr w) (na_source a) @ ascii ''_'' @ [0x0A]
       @ date_label @ strftime (na_published_at a) @ ascii ''_'' @ [0x0A]
       @ read_original @ py_str (py_repr w) (na_url a) @ ascii '')''"

text \<open>The body of the second loop, for one entry of \<open>new_articles\<close>.\<close>

definition send_article :: "world \<Rightarrow> int \<Rightarrow> new_article \<Rightarrow> state \<Rightarrow> (exn + unit) \<times> state" where
  "send_article w chat_id a s =
     and_then (translate_text w (na_title a) s) (\<lambda>translated_title s.
     and_then (send_message w chat_id (scheduled_message w translated_title a) s) (\<lambda>_ s.
     and_then (execute_insert
                 \<lparr>row_id = na_id a, row_title = na_title a, row_title_ru = translated_title,
                  row_url = na_url a, row_source = na_source a,
                  row_published_at = na_published_at a\<rparr> s) (\<lambda>_ s.
       (Inr (), commit s))))"

fun send_new :: "world \<Rightarrow> int \<Rightarrow> new_article list \<Rightarrow> state \<Rightarrow> (exn + unit) \<times> state" where
  "send_new w chat_id [] s = (Inr (), s)"
| "send_new w chat_id (a # rest) s =
     (case send_article w chat_id a s of
        (Inl e, s1) \<Rightarrow> (Inl e, s1)
      | (Inr _, s1) \<Rightarrow> send_new w chat_id rest s1)"

text \<open>The body of the outer \<open>try\<close>, then the function with its \<open>except\<close>.\<close>

definition check_and_send_news_try :: "world \<Rightarrow> int \<Rightarrow> state \<Rightarrow> (exn + unit) \<times> state" where
  "check_and_send_news_try w chat_id s =
     and_then (fetch_bitcoin_news w s) (\<lambda>articles s.
       if \<not> truthy articles then (Inr (), emit LogInfo s)
       else
         and_then (pure (iterate articles) s) (\<lambda>arts s.
           case collect_new w arts [] s of
             (new_articles, s1) \<Rightarrow> send_new w chat_id new_articles s1))"

definition check_and_send_news :: "world \<Rightarrow> int \<Rightarrow> state \<Rightarrow> (exn + unit) \<times> state" where
  "check_and_send_news w chat_id s =
     (case check_and_send_news_try w chat_id s of
        (Inl e, s1) \<Rightarrow> (Inr (), emit LogError s1)
      | (Inr u, s1) \<Rightarrow> (Inr u, s1))"

section \<open>latest_news\<close>

definition latest_message :: "world \<Rightarrow> json \<Rightarrow> json \<Rightarrow> pystr" where
  "latest_message w translated_title link =
     newspaper @ ascii ''*'' @ py_str (py_repr w) translated_title @ ascii ''*'' @ [0x0A]
       @ read_article @ py_str (py_repr w) link @ ascii '')''"

text \<open>
  The body of the loop for one article; \<open>sent_articles\<close> goes in and comes out. The
  parameters of the \<open>INSERT\<close> are evaluated after \<open>reply_text\<close> has returned.
\<close>

definition latest_article ::
  "world \<Rightarrow> json \<Rightarrow> pystr list \<Rightarrow> state \<Rightarrow> (exn + pystr list) \<times> state" where
  "latest_article w article sent_articles s =
     and_then (pure (subscript article (ascii ''title'')) s) (\<lambda>title s.
     and_then (pure (subscript article (ascii ''url'')) s) (\<lambda>url s.
     and_then (pure (generate_news_id (py_repr w) title url) s) (\<lambda>news_id s.
       if select_id s news_id then (Inr sent_articles, s)
       else
         and_then (translate_text w title s) (\<lambda>translated_title s.
         and_then (reply_text w (latest_message w translated_title url) s) (\<lambda>_ s.
         and_then (pure (subscript article (ascii ''source'')) s) (\<lambda>src s.
         and_then (pure (subscript src (ascii ''name'')) s) (\<lambda>source s.
         and_then (pure (subscript article (ascii ''publishedAt'')) s) (\<lambda>p s.
         and_then (pure (strptime_arg p) s) (\<lambda>published_at s.
         and_then (execute_insert
                     \<lparr>row_id = news_id, row_title = title, row_title_ru = translated_title,
                      row_url = url, row_source = source,
                      row_published_at = published_at\<rparr> s) (\<lambda>_ s.
           (Inr (sent_articles @ [news_id]), s)))))))))))"

fun latest_loop ::
  "world \<Rightarrow> json list \<Rightarrow> pystr list \<Rightarrow> state \<Rightarrow> (exn + pystr list) \<times> state" where
  "latest_loop w [] sent_articles s = (Inr sent_articles, s)"
| "latest_loop w (a # rest) sent_articles s =
     (case latest_article w a sent_articles s of
        (Inl e, s1) \<Rightarrow> (Inl e, s1)
      | (Inr sent, s1) \<Rightarrow> latest_loop w rest sent s1)"

definition latest_news_try :: "world \<Rightarrow> state \<Rightarrow> (exn + unit) \<times> state" where
  "latest_news_try w s =
     and_then (fetch_bitcoin_news w s) (\<lambda>fetched s.
     and_then (pure (first_five fetched) s) (\<lambda>articles s.
       if \<not> truthy articles then reply_text w news_not_found s
       else
         and_then (pure (iterate articles) s) (\<lambda>arts s.
         and_then (latest_loop w arts [] s) (\<lambda>sent_articles s.
         and_then (if sent_articles = [] then reply_text w no_new_news s else (Inr (), s))
           (\<lambda>_ s. (Inr (), commit s))))))"

definition latest_news :: "world \<Rightarrow> state \<Rightarrow> (exn + unit) \<times> state" where
  "latest_news w s =
     (case latest_news_try w s of
        (Inl e, s1) \<Rightarrow> reply_text w fetch_error (emit LogError s1)
      | (Inr u, s1) \<Rightarrow> (Inr u, s1))"

section \<open>Notions of the specification\<close>

text \<open>
  The failures of the news source that the \<open>try\<close> of \<open>fetch_bitcoin_news\<close> sees: no
  answer, an error status, a body that is no JSON, a body that is no \<open>dict\<close>.
\<close>

definition fetch_failed :: "http_outcome \<Rightarrow> bool" where
  "fetch_failed r =
     (case r of
        Raised \<Rightarrow> True
      | Response status body \<Rightarrow>
          raise_for_status status \<or>
          (case body of None \<Rightarrow> True | Some (JDict items) \<Rightarrow> False | Some _ \<Rightarrow> True))"

text \<open>The messages that reached the chat, among the events.\<close>

definition deliveries :: "event list \<Rightarrow> event list" where
  "deliveries es =
     filter (\<lambda>e. case e of SendMessage c m \<Rightarrow> True | ReplyText m \<Rightarrow> True | _ \<Rightarrow> False) es"

text \<open>The rows the connection sees, and the invariant of the primary key.\<close>

definition rows :: "state \<Rightarrow> news_row list" where
  "rows s = committed s @ pending s"

definition unique_ids :: "state \<Rightarrow> bool" where
  "unique_ids s = distinct (map row_id (rows s))"

text \<open>
  A step of a run: it keeps the invariant, and the rows in the file and the rows the
  connection sees only grow at the end.
\<close>

definition store_step :: "state \<Rightarrow> state \<Rightarrow> bool" where
  "store_step s s' =
     ((unique_ids s \<longrightarrow> unique_ids s')
      \<and> prefix (committed s) (committed s') \<and> prefix (rows s) (rows s'))"

text \<open>
  The states of the program: it starts on a new database file, runs the scheduled job
  and \<open>/latest\<close> in any order and any world, and may be stopped and started again.
\<close>

inductive reachable :: "state \<Rightarrow> bool" where
  start: "reachable (startup None)"
| scheduled: "reachable s \<Longrightarrow> reachable (snd (check_and_send_news w chat_id s))"
| on_demand: "reachable s \<Longrightarrow> reachable (snd (latest_news w s))"
| restart: "reachable s \<Longrightarrow> reachable (startup (shutdown s))"

text \<open>
  The texts of the replies to \<open>/latest\<close>, among the events; a reply that shows an article,
  and the three notices.
\<close>

definition replies :: "event list \<Rightarrow> pystr list" where
  "replies es = concat (map (\<lambda>e. case e of ReplyText m \<Rightarrow> [m] | _ \<Rightarrow> []) es)"

definition is_item :: "world \<Rightarrow> pystr \<Rightarrow> bool" where
  "is_item w m = (\<exists>tt u. m = latest_message w tt u)"

definition is_notice :: "pystr \<Rightarrow> bool" where
  "is_notice m = (m = news_not_found \<or> m = no_new_news \<or> m = fetch_error)"

text \<open>
  The events a step adds. A step \<open>emits Q\<close> when it only adds events, and every message
  among them, sent or replied, satisfies \<open>Q\<close>.
\<close>

definition new_events :: "state \<Rightarrow> state \<Rightarrow> event list" where
  "new_events s s' = drop (length (events s)) (events s')"

definition messages_are :: "(pystr \<Rightarrow> bool) \<Rightarrow> event \<Rightarrow> bool" where
  "messages_are Q e = (case e of SendMessage c m \<Rightarrow> Q m | ReplyText m \<Rightarrow> Q m | _ \<Rightarrow> True)"

definition emits :: "(pystr \<Rightarrow> bool) \<Rightarrow> state \<Rightarrow> state \<Rightarrow> bool" where
  "emits Q s s' = (\<exists>new. events s' = events s @ new \<and> (\<forall>e\<in>set new. messages_are Q e))"

text \<open>\<open>tt\<close> is what \<open>translate_text\<close> returns for the title \<open>t\<close>, in some state of the run.\<close>

definition translation_of :: "world \<Rightarrow> json \<Rightarrow> json \<Rightarrow> bool" where
  "translation_of w t tt = (\<exists>s0. fst (translate_text w t s0) = Inr tt)"

text \<open>
  The candidates of a run: what the loop of \<open>check_and_send_news\<close> visits in the value
  fetched, and what the loop of \<open>latest_news\<close> visits in its first five.
\<close>

definition candidates :: "json \<Rightarrow> json list" where
  "candidates v = (case iterate v of Inr arts \<Rightarrow> arts | Inl e \<Rightarrow> [])"

definition top_five :: "json \<Rightarrow> json list" where
  "top_five fetched = (case first_five fetched of Inr v \<Rightarrow> candidates v | Inl e \<Rightarrow> [])"

text \<open>
  What a notification holds. In a scheduled run: the translated title, the source name,
  the date as \<open>strftime\<close> prints it and the link in parentheses after its label (a link
  for Markdown), of one of the candidates, each as \<open>str\<close> prints it. A reply to \<open>/latest\<close> that shows a candidate is the text made of
  its translated title and its link and nothing else of it: the newspaper sign, the
  title between asterisks, a line break, and the link in parentheses after the label. A
  reply to \<open>/latest\<close> is such a text or one of the three notices.
\<close>

definition shows_scheduled :: "world \<Rightarrow> json list \<Rightarrow> pystr \<Rightarrow> bool" where
  "shows_scheduled w arts m =
     (\<exists>a\<in>set arts. \<exists>t u so src p dt tt.
        subscript a (ascii ''title'') = Inr t \<and> subscript a (ascii ''url'') = Inr u
        \<and> subscript a (ascii ''source'') = Inr so \<and> subscript so (ascii ''name'') = Inr src
        \<and> subscript a (ascii ''publishedAt'') = Inr p \<and> strptime_arg p = Inr dt
        \<and> translation_of w t tt
        \<and> sublist (py_str (py_repr w) tt) m \<and> sublist (py_str (py_repr w) src) m
        \<and> sublist (strftime dt) m
        \<and> sublist (read_original @ py_str (py_repr w) u @ ascii '')'') m)"

definition shows_latest :: "world \<Rightarrow> json list \<Rightarrow> pystr \<Rightarrow> bool" where
  "shows_latest w arts m =
     (\<exists>a\<in>set arts. \<exists>t u tt.
        subscript a (ascii ''title'') = Inr t \<and> subscript a (ascii ''url'') = Inr u
        \<and> translation_of w t tt
        \<and> m = newspaper @ ascii ''*'' @ py_str (py_repr w) tt @ ascii ''*'' @ [0x0A]
                @ read_article @ py_str (py_repr w) u @ ascii '')'')"

definition latest_reply :: "world \<Rightarrow> json list \<Rightarrow> pystr \<Rightarrow> bool" where
  "latest_reply w arts m = (is_notice m \<or> shows_latest w arts m)"

section \<open>Sample inputs\<close>

text \<open>
  An article as the news source sends it; one without the key \<open>title\<close>, one without the
  key \<open>source\<close>, one whose \<open>title\<close> is \<open>null\<close>; and a batch of six: five times the same
  article, then the one without \<open>title\<close>.
\<close>

definition sample_article :: "string \<Rightarrow> string \<Rightarrow> json" where
  "sample_article t u =
     JDict [(ascii ''title'', JStr (ascii t)), (ascii ''url'', JStr (ascii u)),
            (ascii ''source'', JDict [(ascii ''name'', JStr (ascii ''CoinDesk''))]),
            (ascii ''publishedAt'', JStr (ascii ''2024-03-05T07:09:59Z''))]"

definition untitled_article :: json where
  "untitled_article =
     JDict [(ascii ''url'', JStr (ascii ''https://example.com/x'')),
            (ascii ''source'', JDict [(ascii ''name'', JStr (ascii ''CoinDesk''))]),
            (ascii ''publishedAt'', JStr (ascii ''2024-03-05T07:09:59Z''))]"

definition unsourced_article :: "string \<Rightarrow> string \<Rightarrow> json" where
  "unsourced_article t u =
     JDict [(ascii ''title'', JStr (ascii t)), (ascii ''url'', JStr (ascii u)),
            (ascii ''publishedAt'', JStr (ascii ''2024-03-05T07:09:59Z''))]"

definition null_title_article :: json where
  "null_title_article =
     JDict [(ascii ''title'', JNone), (ascii ''url'', JStr (ascii ''https://example.com/x'')),
            (ascii ''source'', JDict [(ascii ''name'', JStr (ascii ''CoinDesk''))]),
            (ascii ''publishedAt'', JStr (ascii ''2024-03-05T07:09:59Z''))]"

definition six_articles :: "json list" where
  "six_articles =
     [sample_article ''A'' ''u'', sample_article ''A'' ''u'', sample_article ''A'' ''u'',
      sample_article ''A'' ''u'', sample_article ''A'' ''u'', untitled_article]"

text \<open>
  Worlds whose chat accepts every message: one where the news source answers with the
  given value under \<open>articles\<close> and the translator does not answer; one where neither
  service answers; one where the translator answers with status 200 and the given value
  as \<open>translatedText\<close>. And a world where no service answers and the chat refuses every
  message. The \<open>repr\<close> of these worlds is never asked, for the samples hold text and \<open>None\<close>
  only.
\<close>

definition serving :: "json \<Rightarrow> world" where
  "serving v =
     \<lparr>news_api = Response 200 (Some (JDict [(ascii ''status'', JStr (ascii ''ok'')),
                                              (ascii ''articles'', v)])),
      translate_api = (\<lambda>_ _. Raised), telegram = (\<lambda>_ _. True), py_repr = (\<lambda>_. [])\<rparr>"

definition offline :: world where
  "offline =
     \<lparr>news_api = Raised, translate_api = (\<lambda>_ _. Raised), telegram = (\<lambda>_ _. True),
      py_repr = (\<lambda>_. [])\<rparr>"

definition chat_down :: world where
  "chat_down =
     \<lparr>news_api = Raised, translate_api = (\<lambda>_ _. Raised), telegram = (\<lambda>_ _. False),
      py_repr = (\<lambda>_. [])\<rparr>"

definition translating :: "json \<Rightarrow> world" where
  "translating v =
     \<lparr>news_api = Raised,
      translate_api = (\<lambda>_ _. Response 200 (Some (JDict
         [(ascii ''responseStatus'', JInt 200),
          (ascii ''responseData'', JDict [(ascii ''translatedText'', v)])]))),
      telegram = (\<lambda>_ _. True), py_repr = (\<lambda>_. [])\<rparr>"

text \<open>
  The fingerprint of \<open>sample_article ''A'' ''u''\<close>, and the two messages that show this
  article when the translator does not answer: the one of the scheduled job and the reply
  of \<open>/latest\<close>.
\<close>

definition sample_id :: pystr where
  "sample_id = hexdigest (md5 (ascii ''Au''))"

definition sample_scheduled_text :: pystr where
  "sample_scheduled_text =
     newspaper @ ascii ''*A*'' @ [0x0A]
       @ source_label @ ascii ''CoinDesk_'' @ [0x0A]
       @ date_label @ ascii ''05.03.2024 07:09_'' @ [0x0A]
       @ read_original @ ascii ''u)''"

definition sample_latest_text :: pystr where
  "sample_latest_text = newspaper @ ascii ''*A*'' @ [0x0A] @ read_article @ ascii ''u)''"

section \<open>Evaluation of the samples\<close>

declare decimal.simps [simp del]

lemmas run_defs =
  check_and_send_news_def check_and_send_news_try_def latest_news_def latest_news_try_def
  latest_article_def send_article_def read_article_fields_def
  fetch_bitcoin_news_def fetch_try_def translate_text_def translate_try_def
  send_message_def reply_text_def execute_insert_def bind_parameter_def select_id_def
  commit_def emit_def and_then_def pure_def raise_for_status_def startup_def shutdown_def
  subscript_def get_default_def truthy_def iterate_def first_five_def equals_200_def
  strptime_arg_def generate_news_id_def py_str_def utf8_char_def ascii_def
  strip_is_empty_def is_space_def List.map_filter_def
  serving_def offline_def chat_down_def translating_def sample_article_def untitled_article_def
  unsourced_article_def null_title_article_def six_articles_def
  sample_id_def sample_scheduled_text_def sample_latest_text_def
  scheduled_message_def latest_message_def deliveries_def rows_def replies_def Let_def

lemma encode_ascii: "\<forall>c\<in>set s. c < 0x80 \<Longrightarrow> encode s = Inr s"
  by (induction s) (simp_all add: utf8_char_def)

lemma hex_digit_ascii: "hex_digit n < 0x80"
proof -
  have "hex_digit n \<in> set (ascii ''0123456789abcdef'')"
    unfolding hex_digit_def by (rule nth_mem) (simp add: ascii_def)
  then show ?thesis by (auto simp: ascii_def)
qed

lemma encode_hexdigest [simp]: "encode (hexdigest bs) = Inr (hexdigest bs)"
  by (rule encode_ascii) (auto simp: hexdigest_def hex_digit_ascii)

lemma sample_time:
  "strptime [50, 48, 50, 52, 45, 48, 51, 45, 48, 53, 84, 48, 55, 58, 48, 57, 58, 53, 57, 90]
     = Some \<lparr>year = 2024, month = 3, day = 5, hour = 7, minute = 9, second = 59\<rparr>"
  by (simp add: strptime_def up_to_def directive_Y_def directive_m_def directive_d_def
      directive_H_def directive_M_def directive_S_def two_def first_of_def digit_in_def
      digit_value_def digit_zeros_def days_in_month_def is_leap_def)

lemma decimal_four_digits:
  assumes "1000 \<le> n" "n \<le> 9999"
  shows "decimal n =
     [digit_char (n div 1000), digit_char (n div 100), digit_char (n div 10), digit_char n]"
proof -
  have a: "decimal n = decimal (n div 10) @ [digit_char n]"
    using assms by (subst decimal.simps) simp
  have b: "decimal (n div 10) = decimal (n div 100) @ [digit_char (n div 10)]"
    using assms by (subst decimal.simps) (simp add: div_mult2_eq [symmetric])
  have c: "decimal (n div 100) = decimal (n div 1000) @ [digit_char (n div 100)]"
    using assms by (subst decimal.simps) (simp add: div_mult2_eq [symmetric])
  have d: "decimal (n div 1000) = [digit_char (n div 1000)]"
    using assms by (subst decimal.simps) simp
  show ?thesis by (simp add: a b c d)
qed

lemma sample_date:
  "strftime \<lparr>year = 2024, month = 3, day = 5, hour = 7, minute = 9, second = 59\<rparr>
     = [48, 53, 46, 48, 51, 46, 50, 48, 50, 52, 32, 48, 55, 58, 48, 57]"
  by (simp add: strftime_def two_digits_def decimal_four_digits digit_char_def ascii_def)

section \<open>The fingerprint\<close>

lemma length_le_bytes: "length (le_bytes n v) = n"
  by (induction n arbitrary: v) simp_all

lemma length_md5: "length (md5 data) = 16"
  by (simp add: md5_def Let_def length_le_bytes split: prod.splits)

lemma length_hexdigest: "length (hexdigest bs) = 2 * length bs"
  by (induction bs) (simp_all add: hexdigest_def)

text \<open>The fingerprint, when \<open>encode\<close> does not raise, has 32 characters.\<close>

lemma generate_news_id_length:
  "generate_news_id repr t u = Inr news_id \<Longrightarrow> length news_id = 32"
  by (auto simp: generate_news_id_def length_hexdigest length_md5 split: sum.splits)

text \<open>
  C3 fails on the code. The docstring of \<open>generate_news_id\<close> promises a unique ID for
  a news item, and the function hashes \<open>f"{title}{url}"\<close>, title and link with nothing
  between them. The pairs \<open>("ab", "c")\<close> and \<open>("a", "bc")\<close> are distinct and both are
  hashed as the bytes of \<open>abc\<close>: they get the same fingerprint.
\<close>

theorem generate_news_id_collision:
  "(JStr (ascii ''ab''), JStr (ascii ''c'')) \<noteq> (JStr (ascii ''a''), JStr (ascii ''bc''))
   \<and> generate_news_id (py_repr offline) (JStr (ascii ''ab'')) (JStr (ascii ''c''))
       = Inr (hexdigest (md5 (ascii ''abc'')))
   \<and> generate_news_id (py_repr offline) (JStr (ascii ''a'')) (JStr (ascii ''bc''))
       = Inr (hexdigest (md5 (ascii ''abc'')))"
  by (simp add: generate_news_id_def py_str_def ascii_def utf8_char_def)

section \<open>The translator\<close>

text \<open>
  What \<open>translate_text\<close> does keep: a text of whitespace only is returned as it is, in
  the same state, so without a request; when the body of the \<open>try\<close> raises, the text is
  returned; and a call on a \<open>str\<close> returns, it does not raise.
\<close>

lemma translate_text_returns:
  "\<exists>v s'. translate_text w (JStr t) s = (Inr v, s')"
  by (simp add: translate_text_def Let_def split: sum.splits)

lemma translate_text_raises:
  "translate_text w text s = (Inl e, s') \<Longrightarrow>
     e = AttributeError \<and> s' = s \<and> (\<forall>t. text \<noteq> JStr t)"
  by (auto simp: translate_text_def Let_def split: json.splits if_splits sum.splits)

lemma translate_text_falls_back:
  "(strip_is_empty t \<longrightarrow> translate_text w (JStr t) s = (Inr (JStr t), s))
   \<and> ((\<exists>e. translate_try (translate_api w (events s) t) (JStr t) = Inl e)
        \<longrightarrow> fst (translate_text w (JStr t) s) = Inr (JStr t))"
  by (auto simp: translate_text_def Let_def)

lemma translate_try_failures:
  "translate_try Raised text = Inl RequestException"
  "raise_for_status status \<Longrightarrow> translate_try (Response status body) text = Inl HTTPError"
  "\<not> raise_for_status status \<Longrightarrow> translate_try (Response status None) text = Inl JSONDecodeError"
  "\<not> raise_for_status status \<Longrightarrow> subscript result (ascii ''responseStatus'') = Inr rs
     \<Longrightarrow> \<not> equals_200 rs \<Longrightarrow> translate_try (Response status (Some result)) text = Inr text"
  by (simp_all add: translate_try_def)

text \<open>
  C7 fails on the code. \<open>translate_text\<close> is declared to return a \<open>str\<close> and falls back to
  its input when the request fails or \<open>responseStatus\<close> is not 200; but with status 200
  it returns \<open>result['responseData']['translatedText']\<close> without looking at it. The
  translator answers \<open>{"responseStatus": 200, "responseData": {"translatedText": null}}\<close>
  to the text \<open>Bitcoin\<close>: the function returns \<open>None\<close>, not its input.
\<close>

theorem translate_text_null_translation:
  "fst (translate_text (translating JNone) (JStr (ascii ''Bitcoin'')) (startup None)) = Inr JNone
   \<and> JNone \<noteq> JStr (ascii ''Bitcoin'')"
  by (simp add: run_defs)

section \<open>The fetch\<close>

text \<open>
  What \<open>fetch_bitcoin_news\<close> does keep: it always returns, it does not raise; when the
  news source fails it returns the empty list; and a scheduled run whose fetch gives a
  value that counts as false (the empty list, also \<open>None\<close>) returns with the table, the
  open transaction and the delivered messages as they were.
\<close>

lemma fetch_bitcoin_news_returns:
  "\<exists>v s'. fetch_bitcoin_news w s = (Inr v, s')"
  by (simp add: fetch_bitcoin_news_def Let_def split: sum.splits)

lemma fetch_bitcoin_news_failed:
  "fetch_failed (news_api w) \<Longrightarrow> fst (fetch_bitcoin_news w s) = Inr (JList [])"
  by (auto simp: fetch_failed_def fetch_bitcoin_news_def fetch_try_def get_default_def Let_def
      split: http_outcome.splits option.splits sum.splits json.splits)

lemma fetch_bitcoin_news_state:
  "fetch_bitcoin_news w s = (r, s') \<Longrightarrow>
     committed s' = committed s \<and> pending s' = pending s
     \<and> deliveries (events s') = deliveries (events s)"
  by (auto simp: fetch_bitcoin_news_def emit_def deliveries_def Let_def split: sum.splits)

lemma check_and_send_news_nothing_fetched:
  assumes "fst (fetch_bitcoin_news w s) = Inr v" "\<not> truthy v"
  shows "\<exists>s'. check_and_send_news w chat_id s = (Inr (), s')
           \<and> committed s' = committed s \<and> pending s' = pending s
           \<and> deliveries (events s') = deliveries (events s)"
proof -
  obtain s1 where f: "fetch_bitcoin_news w s = (Inr v, s1)"
    using assms(1) by (cases "fetch_bitcoin_news w s") simp
  have "check_and_send_news w chat_id s = (Inr (), emit LogInfo s1)"
    by (simp add: check_and_send_news_def check_and_send_news_try_def and_then_def f assms(2))
  moreover have "committed (emit LogInfo s1) = committed s"
    "pending (emit LogInfo s1) = pending s"
    "deliveries (events (emit LogInfo s1)) = deliveries (events s)"
    using fetch_bitcoin_news_state [OF f] by (simp_all add: emit_def deliveries_def)
  ultimately show ?thesis by simp
qed

text \<open>
  C8 fails on the code. \<open>fetch_bitcoin_news\<close> is declared to return a \<open>list\<close> and gives
  \<open>.get\<close> the default \<open>[]\<close>; the default is used when the key \<open>articles\<close> is absent, not
  when it holds another value. The news source answers \<open>{"status": "ok", "articles": null}\<close>
  with status 200, a malformed payload: the function returns \<open>None\<close>, not the empty list.
\<close>

theorem fetch_bitcoin_news_null_articles:
  "fst (fetch_bitcoin_news (serving JNone) (startup None)) = Inr JNone
   \<and> JNone \<noteq> JList []"
  by (simp add: run_defs)

section \<open>The table\<close>

text \<open>
  What the table does keep. Every step of a run keeps the rows in the file, and the rows
  the connection sees, as a prefix of the new ones, and keeps the fingerprints distinct.
\<close>

lemma store_step_refl [simp]: "store_step s s"
  by (simp add: store_step_def)

lemma store_step_trans: "store_step s s1 \<Longrightarrow> store_step s1 s2 \<Longrightarrow> store_step s s2"
  by (auto simp: store_step_def)

lemma and_then_step:
  "store_step s (snd r) \<Longrightarrow> (\<And>v s1. store_step s1 (snd (f v s1)))
     \<Longrightarrow> store_step s (snd (and_then r f))"
  by (cases r) (auto simp: and_then_def split: sum.splits intro: store_step_trans)

lemma store_step_emit [simp]: "store_step s (emit e s)"
  by (simp add: store_step_def emit_def unique_ids_def rows_def)

lemma store_step_emit2: "store_step s s1 \<Longrightarrow> store_step s (emit e s1)"
  by (rule store_step_trans [where ?s1.0 = s1]) simp_all

lemma store_step_commit [simp]: "store_step s (commit s)"
  by (simp add: store_step_def commit_def unique_ids_def rows_def)

lemma store_step_pure [simp]: "store_step s (snd (pure r s))"
  by (simp add: pure_def)

lemma store_step_insert [simp]: "store_step s (snd (execute_insert r s))"
  by (auto simp: store_step_def execute_insert_def select_id_def unique_ids_def rows_def
      split: list.splits)

lemma store_step_translate [simp]: "store_step s (snd (translate_text w t s))"
  by (simp add: translate_text_def Let_def store_step_emit2 split: sum.splits json.splits)

lemma store_step_send [simp]: "store_step s (snd (send_message w c m s))"
  by (simp add: send_message_def)

lemma store_step_reply [simp]: "store_step s (snd (reply_text w m s))"
  by (simp add: reply_text_def)

lemma store_step_fetch [simp]: "store_step s (snd (fetch_bitcoin_news w s))"
  by (simp add: fetch_bitcoin_news_def Let_def store_step_emit2 split: sum.splits)

lemma read_article_fields_state [simp]: "snd (read_article_fields w a s) = s"
  by (simp add: read_article_fields_def and_then_def pure_def split: sum.splits)

lemma read_article_fields_pair:
  "read_article_fields w a s = (fst (read_article_fields w a s), s)"
  using read_article_fields_state [of w a s] by (cases "read_article_fields w a s") simp

lemma store_step_collect: "store_step s (snd (collect_new w as acc s))"
proof (induction as arbitrary: acc s)
  case Nil
  show ?case by simp
next
  case (Cons a as)
  obtain r where r: "read_article_fields w a s = (r, s)"
    using read_article_fields_pair [of w a s] by blast
  show ?case
  proof (cases r)
    case (Inl e)
    have "store_step (emit LogError s) (snd (collect_new w as acc (emit LogError s)))"
      by (rule Cons.IH)
    then have "store_step s (snd (collect_new w as acc (emit LogError s)))"
      by (rule store_step_trans [OF store_step_emit])
    then show ?thesis by (simp add: r Inl)
  next
    case (Inr na)
    show ?thesis by (simp add: r Inr Cons.IH)
  qed
qed

lemma store_step_send_article [simp]: "store_step s (snd (send_article w c a s))"
  unfolding send_article_def
  by (intro and_then_step) simp_all

lemma store_step_send_new: "store_step s (snd (send_new w c as s))"
proof (induction as arbitrary: s)
  case Nil
  show ?case by simp
next
  case (Cons a as)
  show ?case
    using store_step_send_article [of s w c a] Cons.IH
    by (cases "send_article w c a s") (auto split: sum.splits intro: store_step_trans)
qed

lemma store_step_check_try: "store_step s (snd (check_and_send_news_try w c s))"
  unfolding check_and_send_news_try_def
proof (intro and_then_step)
  show "store_step s (snd (fetch_bitcoin_news w s))" by simp
next
  fix articles s1
  have loop: "store_step s2 (snd (case collect_new w arts [] s2 of
                   (new_articles, s3) \<Rightarrow> send_new w c new_articles s3))" for arts s2
  proof -
    obtain new_articles s3 where c: "collect_new w arts [] s2 = (new_articles, s3)"
      by (cases "collect_new w arts [] s2")
    have "store_step s2 s3"
      using store_step_collect [of s2 w arts "[]"] by (simp add: c)
    then have "store_step s2 (snd (send_new w c new_articles s3))"
      by (rule store_step_trans) (rule store_step_send_new)
    then show ?thesis by (simp add: c)
  qed
  show "store_step s1
      (snd (if \<not> truthy articles then (Inr (), emit LogInfo s1)
            else and_then (pure (iterate articles) s1) (\<lambda>arts s.
              case collect_new w arts [] s of
                (new_articles, s1) \<Rightarrow> send_new w c new_articles s1)))"
    by (auto intro!: and_then_step loop)
qed

lemma store_step_check [simp]: "store_step s (snd (check_and_send_news w c s))"
  using store_step_check_try [of s w c]
  by (cases "check_and_send_news_try w c s")
     (auto simp: check_and_send_news_def split: sum.splits intro: store_step_emit2)

lemma store_step_latest_article [simp]: "store_step s (snd (latest_article w a sent s))"
  unfolding latest_article_def
  by (auto intro!: and_then_step)

lemma store_step_latest_loop: "store_step s (snd (latest_loop w as sent s))"
proof (induction as arbitrary: sent s)
  case Nil
  show ?case by simp
next
  case (Cons a as)
  show ?case
    using store_step_latest_article [of s w a sent] Cons.IH
    by (cases "latest_article w a sent s") (auto split: sum.splits intro: store_step_trans)
qed

lemma store_step_latest_try: "store_step s (snd (latest_news_try w s))"
  unfolding latest_news_try_def
  by (auto intro!: and_then_step simp: store_step_latest_loop)

lemma store_step_latest [simp]: "store_step s (snd (latest_news w s))"
proof (cases "latest_news_try w s")
  case (Pair r s1)
  then have s1: "store_step s s1"
    using store_step_latest_try [of s w] by simp
  show ?thesis
  proof (cases r)
    case (Inl e)
    have "store_step s (emit LogError s1)" using s1 by (rule store_step_emit2)
    then have "store_step s (snd (reply_text w fetch_error (emit LogError s1)))"
      by (rule store_step_trans) simp
    then show ?thesis by (simp add: latest_news_def Pair Inl)
  next
    case (Inr u)
    then show ?thesis using s1 by (simp add: latest_news_def Pair)
  qed
qed

lemma unique_ids_startup: "unique_ids (startup None)"
  by (simp add: unique_ids_def rows_def startup_def)

lemma unique_ids_restart: "unique_ids s \<Longrightarrow> unique_ids (startup (shutdown s))"
  by (simp add: unique_ids_def rows_def startup_def shutdown_def)

text \<open>In every state of the program a fingerprint is in one row at most.\<close>

lemma reachable_unique_ids: "reachable s \<Longrightarrow> unique_ids s"
proof (induction rule: reachable.induct)
  case start
  show ?case by (rule unique_ids_startup)
next
  case (scheduled s w chat_id)
  then show ?case using store_step_check [of s w chat_id] by (simp add: store_step_def)
next
  case (on_demand s w)
  then show ?case using store_step_latest [of s w] by (simp add: store_step_def)
next
  case (restart s)
  show ?case using restart.IH by (rule unique_ids_restart)
qed

text \<open>
  The rows in the file are kept by every run and by a restart, and starting on a file that
  has the table changes nothing.
\<close>

lemma committed_rows_kept:
  "prefix (committed s) (committed (snd (check_and_send_news w chat_id s)))"
  "prefix (committed s) (committed (snd (latest_news w s)))"
  "committed (startup (shutdown s)) = committed s"
  "committed (startup (Some table)) = table"
  "startup (shutdown (startup file)) = startup file"
proof -
  show "prefix (committed s) (committed (snd (check_and_send_news w chat_id s)))"
    using store_step_check [of s w chat_id] by (simp add: store_step_def)
  show "prefix (committed s) (committed (snd (latest_news w s)))"
    using store_step_latest [of s w] by (simp add: store_step_def)
qed (simp_all add: startup_def shutdown_def)

section \<open>Runs on sample inputs\<close>

text \<open>
  C1 fails on the code. \<open>/latest\<close> is asked twice while the news source shows one
  article that has no key \<open>source\<close>. The article is new, so it is translated and sent;
  then the parameters of the \<open>INSERT\<close> are read, \<open>article['source']\<close> raises \<open>KeyError\<close>,
  and no row is written. The second run finds no row and sends the same message again.
\<close>

theorem latest_news_redelivers:
  "deliveries (events (snd (latest_news (serving (JList [unsourced_article ''A'' ''u'']))
        (snd (latest_news (serving (JList [unsourced_article ''A'' ''u''])) (startup None))))))
   = [ReplyText sample_latest_text, ReplyText fetch_error,
      ReplyText sample_latest_text, ReplyText fetch_error]"
  by (simp add: run_defs sample_time)

text \<open>
  C4 fails on the code. The batch of a scheduled run holds the same article twice and the
  table is empty. The first loop checks both copies against the table before anything
  is inserted, so both are new; the second loop sends the first copy and inserts it,
  sends the second copy, and only then the \<open>INSERT\<close> raises \<open>IntegrityError\<close>. The
  fingerprint is delivered twice in one run.
\<close>

theorem duplicate_in_batch_sent_twice:
  "deliveries (events (snd (check_and_send_news
        (serving (JList [sample_article ''A'' ''u'', sample_article ''A'' ''u''])) 7
        (startup None))))
   = [SendMessage 7 sample_scheduled_text, SendMessage 7 sample_scheduled_text]"
  by (simp add: run_defs sample_time sample_date)

text \<open>
  C5 fails on the code. \<open>/latest\<close> gets an article and then one without the key \<open>title\<close>.
  The first article is sent and inserted; the second raises \<open>KeyError\<close>, and the only
  \<open>conn.commit()\<close> of \<open>latest_news\<close>, after the loop, is skipped. The row is in the open
  transaction and not in the file; after a restart the table is empty and the first
  article is sent again.
\<close>

theorem latest_news_insert_not_committed:
  "committed (snd (latest_news (serving (JList [sample_article ''A'' ''u'', untitled_article]))
       (startup None))) = []
   \<and> map row_id (pending (snd (latest_news
         (serving (JList [sample_article ''A'' ''u'', untitled_article])) (startup None))))
      = [sample_id]
   \<and> deliveries (events (snd (latest_news (serving (JList [sample_article ''A'' ''u'']))
         (startup (shutdown (snd (latest_news
            (serving (JList [sample_article ''A'' ''u'', untitled_article])) (startup None))))))))
      = [ReplyText sample_latest_text]"
  by (simp add: run_defs sample_time)

text \<open>
  C2 fails on the code. \<open>latest_news\<close> has no handler inside its loop. With an article
  without \<open>title\<close> first, the article after it, which alone is sent, is not sent: the only
  reply is the error text. \<open>check_and_send_news\<close> on the same two articles skips the first
  and sends the second.
\<close>

theorem latest_news_stops_at_malformed:
  "deliveries (events (snd (latest_news (serving (JList [sample_article ''A'' ''u'']))
        (startup None))))
     = [ReplyText sample_latest_text]
   \<and> deliveries (events (snd (latest_news
        (serving (JList [untitled_article, sample_article ''A'' ''u''])) (startup None))))
     = [ReplyText fetch_error]
   \<and> deliveries (events (snd (check_and_send_news
        (serving (JList [untitled_article, sample_article ''A'' ''u''])) 7 (startup None))))
     = [SendMessage 7 sample_scheduled_text]"
  by (simp add: run_defs sample_time sample_date)

text \<open>
  The second loop of \<open>check_and_send_news\<close> has no handler of its own either. An article
  whose \<open>title\<close> is \<open>null\<close> passes the first loop, \<open>translate_text(None)\<close> raises
  \<open>AttributeError\<close> before its \<open>try\<close>, and the article after it is not sent.
\<close>

lemma scheduled_run_stops_at_null_title:
  "fst (translate_text offline JNone (startup None)) = Inl AttributeError
   \<and> deliveries (events (snd (check_and_send_news
        (serving (JList [null_title_article, sample_article ''A'' ''u''])) 7 (startup None))))
     = []"
  by (simp add: run_defs sample_time)

text \<open>
  C10 fails on the code, by the defect of C5. After \<open>/latest\<close> on an article and then one
  without \<open>title\<close>, the program is in a state where the connection sees one row, the one
  it looks up to tell that the article was sent; the row was never committed, and when
  the program is stopped and started again the row is gone.
\<close>

theorem uncommitted_row_lost_at_restart:
  "reachable (snd (latest_news (serving (JList [sample_article ''A'' ''u'', untitled_article]))
        (startup None)))
   \<and> map row_id (rows (snd (latest_news
        (serving (JList [sample_article ''A'' ''u'', untitled_article])) (startup None))))
      = [sample_id]
   \<and> rows (startup (shutdown (snd (latest_news
        (serving (JList [sample_article ''A'' ''u'', untitled_article])) (startup None))))) = []"
proof -
  have "reachable (snd (latest_news
      (serving (JList [sample_article ''A'' ''u'', untitled_article])) (startup None)))"
    by (intro reachable.on_demand reachable.start)
  moreover have "map row_id (rows (snd (latest_news
        (serving (JList [sample_article ''A'' ''u'', untitled_article])) (startup None))))
      = [sample_id]"
    by (simp add: run_defs sample_time)
  moreover have "rows (startup (shutdown (snd (latest_news
        (serving (JList [sample_article ''A'' ''u'', untitled_article])) (startup None))))) = []"
    by (simp add: run_defs sample_time)
  ultimately show ?thesis by simp
qed

section \<open>The first loop of the scheduled run\<close>

text \<open>
  What \<open>check_and_send_news\<close> does keep of C2. Its first loop collects, in the order of the
  batch, exactly the articles whose fields can be read and whose fingerprint is in no row:
  an article that raises there is skipped and nothing else. And the run always returns.
\<close>

lemma read_article_fields_Inr:
  "read_article_fields w a s = (Inr na, s1) \<Longrightarrow>
     \<exists>so p. subscript a (ascii ''title'') = Inr (na_title na)
        \<and> subscript a (ascii ''url'') = Inr (na_url na)
        \<and> subscript a (ascii ''source'') = Inr so
        \<and> subscript so (ascii ''name'') = Inr (na_source na)
        \<and> subscript a (ascii ''publishedAt'') = Inr p
        \<and> strptime_arg p = Inr (na_published_at na)
        \<and> generate_news_id (py_repr w) (na_title na) (na_url na) = Inr (na_id na)"
  by (auto simp: read_article_fields_def and_then_def pure_def split: sum.splits)

lemma read_article_fields_emit [simp]:
  "fst (read_article_fields w a (emit e s)) = fst (read_article_fields w a s)"
  by (simp add: read_article_fields_def and_then_def pure_def split: sum.splits)

lemma read_article_fields_fst:
  "fst (read_article_fields w a s') = fst (read_article_fields w a s)"
  by (simp add: read_article_fields_def and_then_def pure_def split: sum.splits)

lemma select_id_emit [simp]: "select_id (emit e s) n = select_id s n"
  by (simp add: select_id_def emit_def)

lemma collect_new_fst:
  "fst (collect_new w as acc s) =
     acc @ concat (map (\<lambda>a. case fst (read_article_fields w a s) of
                               Inl e \<Rightarrow> []
                             | Inr na \<Rightarrow> if select_id s (na_id na) then [] else [na]) as)"
proof (induction as arbitrary: acc s)
  case Nil
  show ?case by simp
next
  case (Cons a as)
  show ?case
  proof (cases "fst (read_article_fields w a s)")
    case (Inl e)
    then have "read_article_fields w a s = (Inl e, s)"
      using read_article_fields_pair [of w a s] by simp
    then show ?thesis by (simp add: Cons.IH Inl cong: sum.case_cong)
  next
    case (Inr na)
    then have "read_article_fields w a s = (Inr na, s)"
      using read_article_fields_pair [of w a s] by simp
    then show ?thesis by (simp add: Cons.IH Inr)
  qed
qed

lemma collect_new_derived:
  "na \<in> set (fst (collect_new w as acc s)) \<Longrightarrow>
     na \<in> set acc \<or> (\<exists>a\<in>set as. fst (read_article_fields w a s) = Inr na)"
  by (auto simp: collect_new_fst split: sum.splits if_splits)

lemma check_and_send_news_returns: "\<exists>s'. check_and_send_news w chat_id s = (Inr (), s')"
  by (cases "check_and_send_news_try w chat_id s")
     (auto simp: check_and_send_news_def split: sum.splits)

lemma malformed_article_skipped:
  "fst (read_article_fields w a s) = Inl e \<Longrightarrow>
     fst (collect_new w (before @ a # after) acc s) = fst (collect_new w (before @ after) acc s)"
  by (simp add: collect_new_fst)

section \<open>The replies of \<open>/latest\<close>\<close>

lemma replies_append [simp]: "replies (xs @ ys) = replies xs @ replies ys"
  by (simp add: replies_def)

lemma replies_emit:
  "replies (events (emit e s)) = replies (events s) @ (case e of ReplyText m \<Rightarrow> [m] | _ \<Rightarrow> [])"
  by (simp add: emit_def replies_def)

lemma translate_text_replies:
  "translate_text w t s = (r, s') \<Longrightarrow> replies (events s') = replies (events s)"
  by (auto simp: translate_text_def Let_def replies_emit split: if_splits sum.splits json.splits)

lemma fetch_bitcoin_news_replies:
  "fetch_bitcoin_news w s = (r, s') \<Longrightarrow> replies (events s') = replies (events s)"
  by (auto simp: fetch_bitcoin_news_def Let_def replies_emit split: sum.splits)

lemma reply_text_replies:
  "reply_text w m s = (r, s') \<Longrightarrow>
     (r = Inr () \<and> replies (events s') = replies (events s) @ [m])
     \<or> (r = Inl TelegramError \<and> \<not> telegram w (events s) m \<and> s' = s)"
  by (auto simp: reply_text_def replies_emit split: if_splits)

lemma execute_insert_events: "execute_insert r s = (x, s') \<Longrightarrow> events s' = events s"
  by (auto simp: execute_insert_def split: if_splits list.splits)

lemma notice_is_no_item: "is_notice m \<Longrightarrow> \<not> is_item w m"
  by (auto simp: is_notice_def is_item_def latest_message_def newspaper_def news_not_found_def
      no_new_news_def fetch_error_def)

lemma latest_article_replies:
  assumes "latest_article w a sent s = (r, s')"
  shows "\<exists>items. replies (events s') = replies (events s) @ items
           \<and> list_all (is_item w) items \<and> length items \<le> 1
           \<and> (\<forall>sent'. r = Inr sent' \<longrightarrow> length sent' = length sent + length items)"
proof (cases "subscript a (ascii ''title'')")
  case (Inl e)
  then show ?thesis using assms by (auto simp: latest_article_def and_then_def pure_def)
next
  case (Inr t)
  note t = this
  show ?thesis
  proof (cases "subscript a (ascii ''url'')")
    case (Inl e)
    then show ?thesis using assms t by (auto simp: latest_article_def and_then_def pure_def)
  next
    case (Inr u)
    note u = this
    show ?thesis
    proof (cases "generate_news_id (py_repr w) t u")
      case (Inl e)
      then show ?thesis using assms t u by (auto simp: latest_article_def and_then_def pure_def)
    next
      case (Inr nid)
      note nid = this
      show ?thesis
      proof (cases "select_id s nid")
        case True
        then show ?thesis using assms t u nid
          by (auto simp: latest_article_def and_then_def pure_def)
      next
        case False
        obtain y s1 where tr: "translate_text w t s = (y, s1)"
          by (cases "translate_text w t s")
        have r1: "replies (events s1) = replies (events s)"
          using translate_text_replies [OF tr] .
        show ?thesis
        proof (cases y)
          case (Inl e)
          then have "latest_article w a sent s = (Inl e, s1)"
            by (simp add: latest_article_def and_then_def pure_def t u nid False tr)
          then show ?thesis using assms r1 by auto
        next
          case (Inr tt)
          note tt = this
          obtain x s2 where rp: "reply_text w (latest_message w tt u) s1 = (x, s2)"
            by (cases "reply_text w (latest_message w tt u) s1")
          show ?thesis
          proof (cases x)
            case (Inl e)
            then have "s2 = s1" using reply_text_replies [OF rp] by auto
            moreover have "latest_article w a sent s = (Inl e, s2)"
              by (simp add: latest_article_def and_then_def pure_def t u nid False tr tt rp Inl)
            ultimately show ?thesis using assms r1 by auto
          next
            case (Inr v)
            then have r2: "replies (events s2) = replies (events s) @ [latest_message w tt u]"
              using reply_text_replies [OF rp] r1 by auto
            have item: "is_item w (latest_message w tt u)" by (auto simp: is_item_def)
            have "events s' = events s2
                \<and> (\<forall>sent'. r = Inr sent' \<longrightarrow> length sent' = length sent + 1)"
              using assms
              by (auto simp: latest_article_def and_then_def pure_def Let_def t u nid False tr tt
                  rp Inr split: sum.splits prod.splits dest: execute_insert_events)
            then show ?thesis using r2 item
              by (intro exI [of _ "[latest_message w tt u]"]) simp
          qed
        qed
      qed
    qed
  qed
qed

lemma latest_loop_replies:
  "latest_loop w as sent s = (r, s') \<Longrightarrow>
     \<exists>items. replies (events s') = replies (events s) @ items
           \<and> list_all (is_item w) items \<and> length items \<le> length as
           \<and> (\<forall>sent'. r = Inr sent' \<longrightarrow> length sent' = length sent + length items)"
proof (induction as arbitrary: sent s)
  case Nil
  then show ?case by auto
next
  case (Cons a as)
  obtain x s1 where a: "latest_article w a sent s = (x, s1)"
    by (cases "latest_article w a sent s")
  from latest_article_replies [OF a] obtain items1 where
    i1: "replies (events s1) = replies (events s) @ items1" "list_all (is_item w) items1"
      "length items1 \<le> 1"
      "\<forall>sent'. x = Inr sent' \<longrightarrow> length sent' = length sent + length items1"
    by blast
  show ?case
  proof (cases x)
    case (Inl e)
    then have "r = Inl e" "s' = s1" using Cons.prems a by simp_all
    then show ?thesis using i1 by auto
  next
    case (Inr sent1)
    then have "latest_loop w as sent1 s1 = (r, s')" using Cons.prems a by simp
    from Cons.IH [OF this] obtain items2 where
      i2: "replies (events s') = replies (events s1) @ items2" "list_all (is_item w) items2"
        "length items2 \<le> length as"
        "\<forall>sent'. r = Inr sent' \<longrightarrow> length sent' = length sent1 + length items2"
      by blast
    show ?thesis
      using i1 i2 Inr by (intro exI [of _ "items1 @ items2"]) auto
  qed
qed

lemma first_five_iterate:
  "first_five fetched = Inr v \<Longrightarrow> iterate v = Inr arts \<Longrightarrow> length arts \<le> 5"
  by (auto simp: first_five_def iterate_def split: json.splits)

lemma latest_news_try_replies:
  assumes "latest_news_try w s = (x, s2)"
  shows "\<exists>items tail. replies (events s2) = replies (events s) @ items @ tail
           \<and> list_all (is_item w) items \<and> length items \<le> 5
           \<and> (case x of
                Inr _ \<Rightarrow> (items \<noteq> [] \<and> tail = []) \<or> (items = [] \<and> tail = [news_not_found])
                          \<or> (items = [] \<and> tail = [no_new_news])
              | Inl e \<Rightarrow> tail = [])"
proof -
  obtain fetched s1 where f: "fetch_bitcoin_news w s = (Inr fetched, s1)"
    using fetch_bitcoin_news_returns [of w s] by blast
  have r1: "replies (events s1) = replies (events s)"
    using fetch_bitcoin_news_replies [OF f] .
  show ?thesis
  proof (cases "first_five fetched")
    case (Inl e)
    then have "latest_news_try w s = (Inl e, s1)"
      by (simp add: latest_news_try_def and_then_def pure_def f)
    then show ?thesis using assms r1
      by (intro exI [of _ "[]"]) auto
  next
    case (Inr v)
    note v = this
    show ?thesis
    proof (cases "truthy v")
      case False
      then have "reply_text w news_not_found s1 = (x, s2)"
        using assms by (simp add: latest_news_try_def and_then_def pure_def f v)
      from reply_text_replies [OF this] show ?thesis
      proof
        assume "x = Inr () \<and> replies (events s2) = replies (events s1) @ [news_not_found]"
        then show ?thesis using r1
          by (intro exI [of _ "[]"] exI [of _ "[news_not_found]"]) simp
      next
        assume "x = Inl TelegramError \<and> \<not> telegram w (events s1) news_not_found \<and> s2 = s1"
        then show ?thesis using r1
          by (intro exI [of _ "[]"]) simp
      qed
    next
      case True
      note tv = this
      show ?thesis
      proof (cases "iterate v")
        case (Inl e)
        then have "latest_news_try w s = (Inl e, s1)"
          by (simp add: latest_news_try_def and_then_def pure_def f v tv)
        then show ?thesis using assms r1
          by (intro exI [of _ "[]"]) auto
      next
        case (Inr arts)
        note arts = this
        have five: "length arts \<le> 5" using v arts by (rule first_five_iterate)
        obtain y s3 where l: "latest_loop w arts [] s1 = (y, s3)"
          by (cases "latest_loop w arts [] s1")
        obtain items where
          i: "replies (events s3) = replies (events s1) @ items" "list_all (is_item w) items"
            "length items \<le> length arts"
            "\<forall>sent'. y = Inr sent' \<longrightarrow> length sent' = length items"
          using latest_loop_replies [OF l] by (elim exE conjE) simp
        have i5: "length items \<le> 5" using i(3) five by simp
        show ?thesis
        proof (cases y)
          case (Inl e)
          then have "latest_news_try w s = (Inl e, s3)"
            by (simp add: latest_news_try_def and_then_def pure_def f v tv arts l)
          then show ?thesis using assms r1 i(1,2) i5
            by (intro exI [of _ items] exI [of _ "[]"]) auto
        next
          case (Inr sent)
          then have len: "length sent = length items" using i(4) by simp
          show ?thesis
          proof (cases "sent = []")
            case none: True
            then have empty: "items = []" using len by simp
            obtain z s4 where rp: "reply_text w no_new_news s3 = (z, s4)"
              by (cases "reply_text w no_new_news s3")
            show ?thesis
            proof (cases z)
              case (Inl e)
              then have "latest_news_try w s = (Inl e, s4)"
                by (simp add: latest_news_try_def and_then_def pure_def f v tv arts l Inr none rp)
              moreover have "s4 = s3" using reply_text_replies [OF rp] Inl by auto
              ultimately show ?thesis using assms r1 i(1) empty
                by (intro exI [of _ "[]"]) auto
            next
              case right: (Inr u)
              then have "latest_news_try w s = (Inr (), commit s4)"
                by (simp add: latest_news_try_def and_then_def pure_def f v tv arts l Inr none rp)
              moreover have "replies (events s4) = replies (events s3) @ [no_new_news]"
                using reply_text_replies [OF rp] right by auto
              ultimately show ?thesis using assms r1 i(1) empty
                by (intro exI [of _ "[]"] exI [of _ "[no_new_news]"]) (auto simp: commit_def)
            qed
          next
            case some: False
            have "latest_news_try w s = (Inr (), commit s3)"
              by (simp add: latest_news_try_def and_then_def pure_def f v tv arts l Inr some)
            moreover have "items \<noteq> []" using len some by auto
            ultimately show ?thesis using assms r1 i(1,2) i5
              by (intro exI [of _ items] exI [of _ "[]"]) (auto simp: commit_def)
          qed
        qed
      qed
    qed
  qed
qed

lemma latest_news_outcome:
  "\<exists>items tail.
       replies (events (snd (latest_news w s))) = replies (events s) @ items @ tail
     \<and> list_all (is_item w) items \<and> length items \<le> 5
     \<and> ((fst (latest_news w s) = Inr ()
          \<and> ((items \<noteq> [] \<and> tail = []) \<or> (items = [] \<and> tail = [news_not_found])
               \<or> (items = [] \<and> tail = [no_new_news]) \<or> tail = [fetch_error]))
        \<or> (fst (latest_news w s) = Inl TelegramError \<and> tail = []
             \<and> (\<exists>es. \<not> telegram w es fetch_error)))"
proof -
  obtain x s2 where t: "latest_news_try w s = (x, s2)"
    by (cases "latest_news_try w s")
  from latest_news_try_replies [OF t] obtain items tail where
    i: "replies (events s2) = replies (events s) @ items @ tail"
      "list_all (is_item w) items" "length items \<le> 5"
      "case x of
         Inr _ \<Rightarrow> (items \<noteq> [] \<and> tail = []) \<or> (items = [] \<and> tail = [news_not_found])
                   \<or> (items = [] \<and> tail = [no_new_news])
       | Inl e \<Rightarrow> tail = []"
    by blast
  show ?thesis
  proof (cases x)
    case (Inr u)
    then have "latest_news w s = (Inr (), s2)" by (simp add: latest_news_def t)
    then show ?thesis using i Inr
      by (intro exI [of _ items] exI [of _ tail]) auto
  next
    case (Inl e)
    then have tail: "tail = []" using i(4) by simp
    obtain z s3 where rp: "reply_text w fetch_error (emit LogError s2) = (z, s3)"
      by (cases "reply_text w fetch_error (emit LogError s2)")
    have l: "latest_news w s = (z, s3)" by (simp add: latest_news_def t Inl rp)
    have e: "replies (events (emit LogError s2)) = replies (events s) @ items"
      using i(1) tail by (simp add: replies_emit)
    from reply_text_replies [OF rp] show ?thesis
    proof
      assume "z = Inr () \<and> replies (events s3) = replies (events (emit LogError s2)) @ [fetch_error]"
      then show ?thesis using l e i(2,3)
        by (intro exI [of _ items] exI [of _ "[fetch_error]"]) simp
    next
      assume "z = Inl TelegramError \<and> \<not> telegram w (events (emit LogError s2)) fetch_error
          \<and> s3 = emit LogError s2"
      then show ?thesis using l e i(2,3)
        by (intro exI [of _ items] exI [of _ "[]"]) auto
    qed
  qed
qed

lemma reply_text_world: "telegram w' = telegram w \<Longrightarrow> reply_text w' = reply_text w"
  by (intro ext) (simp add: reply_text_def)

lemma translate_text_world:
  "translate_api w' = translate_api w \<Longrightarrow> translate_text w' = translate_text w"
  by (intro ext) (simp add: translate_text_def split: json.splits)

lemma latest_message_world: "py_repr w' = py_repr w \<Longrightarrow> latest_message w' = latest_message w"
  by (intro ext) (simp add: latest_message_def)

lemma latest_article_world:
  assumes "telegram w' = telegram w" "translate_api w' = translate_api w"
    "py_repr w' = py_repr w"
  shows "latest_article w' a sent s = latest_article w a sent s"
  unfolding latest_article_def reply_text_world [OF assms(1)] translate_text_world [OF assms(2)]
    latest_message_world [OF assms(3)] assms(3)
  by (rule refl)

lemma latest_loop_world:
  assumes "telegram w' = telegram w" "translate_api w' = translate_api w"
    "py_repr w' = py_repr w"
  shows "latest_loop w' = latest_loop w"
proof (intro ext)
  fix as sent s
  show "latest_loop w' as sent s = latest_loop w as sent s"
    by (induction as arbitrary: sent s)
       (simp_all add: latest_article_world [OF assms] split: prod.splits sum.splits)
qed

lemma latest_news_top5:
  assumes "news_api w = Response st (Some (JDict b))"
    "map_of b (ascii ''articles'') = Some (JList as)"
  shows "latest_news w s =
     latest_news (w\<lparr>news_api :=
        Response st (Some (JDict [(ascii ''articles'', JList (take 5 as))]))\<rparr>) s"
proof -
  let ?w = "w\<lparr>news_api := Response st (Some (JDict [(ascii ''articles'', JList (take 5 as))]))\<rparr>"
  have rw: "reply_text ?w = reply_text w" by (rule reply_text_world) simp
  have lw: "latest_loop ?w = latest_loop w" by (rule latest_loop_world) simp_all
  define xs where "xs = (if raise_for_status st then [] else as)"
  have "\<exists>s1. fetch_bitcoin_news w s = (Inr (JList xs), s1)
           \<and> fetch_bitcoin_news ?w s = (Inr (JList (take 5 xs)), s1)"
    by (cases "raise_for_status st")
       (simp_all add: fetch_bitcoin_news_def fetch_try_def get_default_def Let_def assms xs_def)
  then obtain s1 where F: "fetch_bitcoin_news w s = (Inr (JList xs), s1)"
    and F': "fetch_bitcoin_news ?w s = (Inr (JList (take 5 xs)), s1)" by blast
  have tt: "first_five (JList (take 5 xs)) = first_five (JList xs)"
    by (simp add: first_five_def)
  show ?thesis
    unfolding latest_news_def latest_news_try_def rw lw F F' and_then_def pure_def
      prod.case sum.case tt
    by (rule refl)
qed

text \<open>
  C9, as the code has it. When the value fetched is a list, \<open>latest_news\<close> runs as on
  its first five articles. And in every run the replies are at most five messages that
  show an article, followed by a tail, and one of two things holds. Either the run returns
  normally, and then the tail is empty after at least one such message, or it is one
  notice after none (no news found, nothing new), or it is the error text, after any
  number of such messages: so there is a reply. Or \<open>TelegramError\<close> is raised to the
  caller, and then the tail is empty and the chat is one that refuses the error text.
\<close>

theorem latest_news_always_replies:
  "(news_api w = Response st (Some (JDict b))
      \<and> map_of b (ascii ''articles'') = Some (JList as) \<longrightarrow>
      latest_news w s =
        latest_news (w\<lparr>news_api :=
           Response st (Some (JDict [(ascii ''articles'', JList (take 5 as))]))\<rparr>) s)
   \<and> (\<exists>items tail.
         replies (events (snd (latest_news w s))) = replies (events s) @ items @ tail
       \<and> list_all (is_item w) items \<and> length items \<le> 5
       \<and> ((fst (latest_news w s) = Inr ()
            \<and> ((items \<noteq> [] \<and> tail = []) \<or> (items = [] \<and> tail = [news_not_found])
                 \<or> (items = [] \<and> tail = [no_new_news]) \<or> tail = [fetch_error]))
          \<or> (fst (latest_news w s) = Inl TelegramError \<and> tail = []
               \<and> (\<exists>es. \<not> telegram w es fetch_error))))"
  using latest_news_top5 [of w st b as s] latest_news_outcome [of w s] by blast

theorem latest_news_always_replies_witness:
  "news_api (serving (JList six_articles))
     = Response 200 (Some (JDict [(ascii ''status'', JStr (ascii ''ok'')),
                                  (ascii ''articles'', JList six_articles)]))
   \<and> map_of [(ascii ''status'', JStr (ascii ''ok'')), (ascii ''articles'', JList six_articles)]
        (ascii ''articles'') = Some (JList six_articles)
   \<and> length six_articles = 6 \<and> length (take 5 six_articles) = 5
   \<and> latest_news (serving (JList six_articles)) (startup None)
       = latest_news (serving (JList six_articles)
           \<lparr>news_api :=
              Response 200 (Some (JDict [(ascii ''articles'', JList (take 5 six_articles))]))\<rparr>)
           (startup None)
   \<and> (\<exists>items tail.
         replies (events (snd (latest_news (serving (JList six_articles)) (startup None))))
           = replies (events (startup None)) @ items @ tail
       \<and> list_all (is_item (serving (JList six_articles))) items \<and> length items \<le> 5
       \<and> ((fst (latest_news (serving (JList six_articles)) (startup None)) = Inr ()
            \<and> ((items \<noteq> [] \<and> tail = []) \<or> (items = [] \<and> tail = [news_not_found])
                 \<or> (items = [] \<and> tail = [no_new_news]) \<or> tail = [fetch_error]))
          \<or> (fst (latest_news (serving (JList six_articles)) (startup None)) = Inl TelegramError
               \<and> tail = []
               \<and> (\<exists>es. \<not> telegram (serving (JList six_articles)) es fetch_error))))
   \<and> replies (events (snd (latest_news (serving (JList six_articles)) (startup None))))
       = [sample_latest_text]
   \<and> replies (events (snd (latest_news (serving (JList (rev six_articles))) (startup None))))
       = [fetch_error]"
proof -
  have a: "news_api (serving (JList six_articles))
     = Response 200 (Some (JDict [(ascii ''status'', JStr (ascii ''ok'')),
                                  (ascii ''articles'', JList six_articles)]))"
    by (simp add: serving_def)
  have b: "map_of [(ascii ''status'', JStr (ascii ''ok'')),
                   (ascii ''articles'', JList six_articles)]
        (ascii ''articles'') = Some (JList six_articles)"
    by (simp add: ascii_def)
  have c: "length six_articles = 6 \<and> length (take 5 six_articles) = 5"
    by (simp add: six_articles_def)
  have d: "replies (events (snd (latest_news (serving (JList six_articles)) (startup None))))
       = [sample_latest_text]"
    by (simp add: run_defs sample_time)
  have e: "replies (events (snd (latest_news (serving (JList (rev six_articles)))
        (startup None)))) = [fetch_error]"
    by (simp add: run_defs sample_time)
  show ?thesis
    using latest_news_always_replies [of "serving (JList six_articles)" 200
        "[(ascii ''status'', JStr (ascii ''ok'')), (ascii ''articles'', JList six_articles)]"
        six_articles "startup None"] a b c d e
    by blast
qed

text \<open>
  C9 as stated fails. The reply is not exactly one of the three: with an article and then
  one without \<open>title\<close>, the article is shown and the error text follows. And there can be
  silence: when the chat refuses every message, nothing is replied and \<open>TelegramError\<close>
  is raised.
\<close>

theorem latest_news_reply_counterexample:
  "deliveries (events (snd (latest_news
        (serving (JList [sample_article ''A'' ''u'', untitled_article])) (startup None))))
     = [ReplyText sample_latest_text, ReplyText fetch_error]
   \<and> fst (latest_news chat_down (startup None)) = Inl TelegramError
   \<and> deliveries (events (snd (latest_news chat_down (startup None)))) = []"
  by (simp add: run_defs sample_time)

section \<open>What the notifications hold\<close>

lemma emits_refl [simp]: "emits Q s s"
  by (simp add: emits_def)

lemma emits_trans: "emits Q s s1 \<Longrightarrow> emits Q s1 s2 \<Longrightarrow> emits Q s s2"
  by (auto simp: emits_def)

lemma emits_events: "emits Q s s1 \<Longrightarrow> events s' = events s1 \<Longrightarrow> emits Q s s'"
  by (simp add: emits_def)

lemma emits_emit: "messages_are Q e \<Longrightarrow> emits Q s (emit e s)"
  by (simp add: emits_def emit_def)

lemma emits_new_events: "emits Q s s' \<Longrightarrow> e \<in> set (new_events s s') \<Longrightarrow> messages_are Q e"
  by (auto simp: emits_def new_events_def)

lemma and_then_emits:
  "emits Q s (snd r) \<Longrightarrow> (\<And>v s1. r = (Inr v, s1) \<Longrightarrow> emits Q s1 (snd (f v s1)))
     \<Longrightarrow> emits Q s (snd (and_then r f))"
  by (cases r) (auto simp: and_then_def split: sum.splits intro: emits_trans)

lemma emits_commit [simp]: "emits Q s (commit s)"
  by (simp add: emits_def commit_def)

lemma emits_pure [simp]: "emits Q s (snd (pure v s))"
  by (simp add: pure_def)

lemma emits_insert [simp]: "emits Q s (snd (execute_insert r s))"
  by (simp add: execute_insert_def emits_def split: list.splits)

lemma emits_translate [simp]: "emits Q s (snd (translate_text w t s))"
  by (auto simp: translate_text_def Let_def messages_are_def split: sum.splits json.splits
      intro!: emits_emit emits_trans [OF emits_emit emits_emit])

lemma emits_fetch [simp]: "emits Q s (snd (fetch_bitcoin_news w s))"
  by (auto simp: fetch_bitcoin_news_def Let_def messages_are_def split: sum.splits
      intro!: emits_emit emits_trans [OF emits_emit emits_emit])

lemma emits_send: "Q m \<Longrightarrow> emits Q s (snd (send_message w c m s))"
  by (simp add: send_message_def emits_emit messages_are_def)

lemma emits_reply: "Q m \<Longrightarrow> emits Q s (snd (reply_text w m s))"
  by (simp add: reply_text_def emits_emit messages_are_def)

lemma translate_text_translation:
  "translate_text w t s = (Inr tt, s1) \<Longrightarrow> translation_of w t tt"
  by (auto simp: translation_of_def intro: exI [of _ s])

lemma sublist_scheduled_message:
  "sublist (py_str (py_repr w) tt) (scheduled_message w tt a)"
  "sublist (py_str (py_repr w) (na_source a)) (scheduled_message w tt a)"
  "sublist (strftime (na_published_at a)) (scheduled_message w tt a)"
  "sublist (read_original @ py_str (py_repr w) (na_url a) @ ascii '')'')
     (scheduled_message w tt a)"
proof -
  show "sublist (py_str (py_repr w) tt) (scheduled_message w tt a)"
    unfolding sublist_def scheduled_message_def
    by (intro exI [of _ "newspaper @ ascii ''*''"] exI) simp
  show "sublist (py_str (py_repr w) (na_source a)) (scheduled_message w tt a)"
    unfolding sublist_def scheduled_message_def
    by (intro exI [of _ "newspaper @ ascii ''*'' @ py_str (py_repr w) tt @ ascii ''*'' @ [0x0A]
          @ source_label"] exI) simp
  show "sublist (strftime (na_published_at a)) (scheduled_message w tt a)"
    unfolding sublist_def scheduled_message_def
    by (intro exI [of _ "newspaper @ ascii ''*'' @ py_str (py_repr w) tt @ ascii ''*'' @ [0x0A]
          @ source_label @ py_str (py_repr w) (na_source a) @ ascii ''_'' @ [0x0A]
          @ date_label"] exI) simp
  show "sublist (read_original @ py_str (py_repr w) (na_url a) @ ascii '')'')
      (scheduled_message w tt a)"
    unfolding sublist_def scheduled_message_def
    by (intro exI [of _ "newspaper @ ascii ''*'' @ py_str (py_repr w) tt @ ascii ''*'' @ [0x0A]
          @ source_label @ py_str (py_repr w) (na_source a) @ ascii ''_'' @ [0x0A]
          @ date_label @ strftime (na_published_at a) @ ascii ''_'' @ [0x0A]"] exI [of _ "[]"])
       simp
qed

lemma emits_collect: "emits Q s (snd (collect_new w as acc s))"
proof (induction as arbitrary: acc s)
  case Nil
  show ?case by simp
next
  case (Cons a as)
  have log: "emits Q s (emit LogError s)"
    by (rule emits_emit) (simp add: messages_are_def)
  show ?case
  proof (cases "fst (read_article_fields w a s)")
    case (Inl e)
    then have "read_article_fields w a s = (Inl e, s)"
      using read_article_fields_pair [of w a s] by simp
    then show ?thesis
      using emits_trans [OF log Cons.IH [of "emit LogError s" acc]] by simp
  next
    case (Inr na)
    then have "read_article_fields w a s = (Inr na, s)"
      using read_article_fields_pair [of w a s] by simp
    then show ?thesis by (simp add: Cons.IH)
  qed
qed

lemma emits_send_article:
  assumes "\<And>tt. translation_of w (na_title na) tt \<Longrightarrow> Q (scheduled_message w tt na)"
  shows "emits Q s (snd (send_article w c na s))"
  unfolding send_article_def
proof (intro and_then_emits)
  show "emits Q s (snd (translate_text w (na_title na) s))" by simp
next
  fix tt s1
  assume "translate_text w (na_title na) s = (Inr tt, s1)"
  then have "Q (scheduled_message w tt na)"
    using assms translate_text_translation by blast
  then show "emits Q s1 (snd (send_message w c (scheduled_message w tt na) s1))"
    by (rule emits_send)
qed simp_all

lemma emits_send_new:
  assumes "\<And>na tt. na \<in> set nas \<Longrightarrow> translation_of w (na_title na) tt
             \<Longrightarrow> Q (scheduled_message w tt na)"
  shows "emits Q s (snd (send_new w c nas s))"
  using assms
proof (induction nas arbitrary: s)
  case Nil
  show ?case by simp
next
  case (Cons na nas)
  have first: "emits Q s (snd (send_article w c na s))"
    by (rule emits_send_article) (simp add: Cons.prems)
  obtain x s1 where a: "send_article w c na s = (x, s1)"
    by (cases "send_article w c na s")
  show ?case
  proof (cases x)
    case (Inl e)
    then show ?thesis using first a by simp
  next
    case (Inr u)
    have "emits Q s1 (snd (send_new w c nas s1))"
      by (rule Cons.IH) (simp add: Cons.prems)
    then show ?thesis using first a Inr by (auto intro: emits_trans)
  qed
qed

lemma shows_scheduled_message:
  assumes "a \<in> set arts" "fst (read_article_fields w a s) = Inr na"
    "translation_of w (na_title na) tt"
  shows "shows_scheduled w arts (scheduled_message w tt na)"
proof -
  have "read_article_fields w a s = (Inr na, s)"
    using read_article_fields_pair [of w a s] assms(2) by simp
  from read_article_fields_Inr [OF this] obtain so p where
    "subscript a (ascii ''title'') = Inr (na_title na)"
    "subscript a (ascii ''url'') = Inr (na_url na)"
    "subscript a (ascii ''source'') = Inr so"
    "subscript so (ascii ''name'') = Inr (na_source na)"
    "subscript a (ascii ''publishedAt'') = Inr p"
    "strptime_arg p = Inr (na_published_at na)"
    by blast
  then show ?thesis
    unfolding shows_scheduled_def
    using assms(1,3) sublist_scheduled_message [where tt = tt and a = na and w = w]
    by (intro bexI [of _ a]) auto
qed

lemma emits_check_try:
  assumes "fst (fetch_bitcoin_news w s) = Inr fetched"
  shows "emits (shows_scheduled w (candidates fetched)) s (snd (check_and_send_news_try w c s))"
  unfolding check_and_send_news_try_def
proof (intro and_then_emits)
  show "emits (shows_scheduled w (candidates fetched)) s (snd (fetch_bitcoin_news w s))" by simp
next
  fix v s1
  assume "fetch_bitcoin_news w s = (Inr v, s1)"
  then have v: "v = fetched" using assms by simp
  let ?Q = "shows_scheduled w (candidates fetched)"
  have log: "emits ?Q s1 (emit LogInfo s1)"
    by (rule emits_emit) (simp add: messages_are_def)
  have loop: "emits ?Q s1
      (snd (and_then (pure (iterate fetched) s1) (\<lambda>arts s.
              case collect_new w arts [] s of
                (new_articles, s1) \<Rightarrow> send_new w c new_articles s1)))"
  proof (intro and_then_emits)
    show "emits ?Q s1 (snd (pure (iterate fetched) s1))" by simp
  next
    fix arts s2
    assume "pure (iterate fetched) s1 = (Inr arts, s2)"
    then have arts: "candidates fetched = arts" by (simp add: pure_def candidates_def)
    obtain nas s3 where c: "collect_new w arts [] s2 = (nas, s3)"
      by (cases "collect_new w arts [] s2")
    have e1: "emits ?Q s2 s3"
      using emits_collect [of ?Q s2 w arts "[]"] by (simp add: c)
    have e2: "emits ?Q s3 (snd (send_new w c nas s3))"
    proof (rule emits_send_new)
      fix na tt
      assume "na \<in> set nas" and tr: "translation_of w (na_title na) tt"
      then have "na \<in> set (fst (collect_new w arts [] s2))" by (simp add: c)
      then obtain a where "a \<in> set arts" "fst (read_article_fields w a s2) = Inr na"
        using collect_new_derived [of na w arts "[]" s2] by auto
      then show "shows_scheduled w (candidates fetched) (scheduled_message w tt na)"
        unfolding arts using tr by (rule shows_scheduled_message)
    qed
    show "emits ?Q s2 (snd (case collect_new w arts [] s2 of
                (new_articles, s1) \<Rightarrow> send_new w c new_articles s1))"
      using emits_trans [OF e1 e2] by (simp add: c)
  qed
  show "emits ?Q s1
      (snd (if \<not> truthy v then (Inr (), emit LogInfo s1)
            else and_then (pure (iterate v) s1) (\<lambda>arts s.
              case collect_new w arts [] s of
                (new_articles, s1) \<Rightarrow> send_new w c new_articles s1)))"
    unfolding v using log loop by (cases "truthy fetched") simp_all
qed

lemma emits_check:
  assumes "fst (fetch_bitcoin_news w s) = Inr fetched"
  shows "emits (shows_scheduled w (candidates fetched)) s (snd (check_and_send_news w c s))"
proof (cases "check_and_send_news_try w c s")
  case (Pair r s1)
  then have e: "emits (shows_scheduled w (candidates fetched)) s s1"
    using emits_check_try [OF assms, of c] by simp
  have "emits (shows_scheduled w (candidates fetched)) s1 (emit LogError s1)"
    by (rule emits_emit) (simp add: messages_are_def)
  then have "emits (shows_scheduled w (candidates fetched)) s (emit LogError s1)"
    by (rule emits_trans [OF e])
  then show ?thesis using e Pair
    by (cases r) (simp_all add: check_and_send_news_def)
qed

lemma shows_latest_message:
  "a \<in> set arts \<Longrightarrow> subscript a (ascii ''title'') = Inr t
     \<Longrightarrow> subscript a (ascii ''url'') = Inr u \<Longrightarrow> translation_of w t tt
     \<Longrightarrow> latest_reply w arts (latest_message w tt u)"
  unfolding latest_reply_def shows_latest_def latest_message_def by blast

lemma emits_latest_article:
  assumes a: "a \<in> set arts"
  shows "emits (latest_reply w arts) s (snd (latest_article w a sent s))"
proof (cases "subscript a (ascii ''title'')")
  case (Inl e)
  then show ?thesis by (simp add: latest_article_def and_then_def pure_def)
next
  case (Inr t)
  note t = this
  show ?thesis
  proof (cases "subscript a (ascii ''url'')")
    case (Inl e)
    then show ?thesis using t by (simp add: latest_article_def and_then_def pure_def)
  next
    case (Inr u)
    note u = this
    show ?thesis
    proof (cases "generate_news_id (py_repr w) t u")
      case (Inl e)
      then show ?thesis using t u by (simp add: latest_article_def and_then_def pure_def)
    next
      case (Inr nid)
      note nid = this
      show ?thesis
      proof (cases "select_id s nid")
        case True
        then show ?thesis using t u nid
          by (simp add: latest_article_def and_then_def pure_def)
      next
        case False
        obtain y s1 where tr: "translate_text w t s = (y, s1)"
          by (cases "translate_text w t s")
        have e1: "emits (latest_reply w arts) s s1"
          using emits_translate [of "latest_reply w arts" s w t] by (simp add: tr)
        show ?thesis
        proof (cases y)
          case (Inl e)
          then have "latest_article w a sent s = (Inl e, s1)"
            by (simp add: latest_article_def and_then_def pure_def t u nid False tr)
          then show ?thesis using e1 by simp
        next
          case (Inr tt)
          note tt = this
          have "translation_of w t tt"
            using tr tt by (auto intro: translate_text_translation)
          then have q: "latest_reply w arts (latest_message w tt u)"
            using a t u by (intro shows_latest_message)
          obtain x s2 where rp: "reply_text w (latest_message w tt u) s1 = (x, s2)"
            by (cases "reply_text w (latest_message w tt u) s1")
          have "emits (latest_reply w arts) s1 s2"
            using emits_reply [of "latest_reply w arts" "latest_message w tt u" s1 w] q
            by (simp add: rp)
          then have e2: "emits (latest_reply w arts) s s2"
            by (rule emits_trans [OF e1])
          have "events (snd (latest_article w a sent s)) = events s2"
            by (cases x)
               (auto simp: latest_article_def and_then_def pure_def Let_def t u nid False tr tt
                  rp split: sum.splits prod.splits dest: execute_insert_events)
          then show ?thesis using e2 by (rule emits_events [rotated])
        qed
      qed
    qed
  qed
qed

lemma emits_latest_loop:
  assumes "set as \<subseteq> set arts"
  shows "emits (latest_reply w arts) s (snd (latest_loop w as sent s))"
  using assms
proof (induction as arbitrary: sent s)
  case Nil
  show ?case by simp
next
  case (Cons a as)
  have first: "emits (latest_reply w arts) s (snd (latest_article w a sent s))"
    by (rule emits_latest_article) (use Cons.prems in simp)
  obtain x s1 where a: "latest_article w a sent s = (x, s1)"
    by (cases "latest_article w a sent s")
  show ?case
  proof (cases x)
    case (Inl e)
    then show ?thesis using first a by simp
  next
    case (Inr sent1)
    have "emits (latest_reply w arts) s1 (snd (latest_loop w as sent1 s1))"
      by (rule Cons.IH) (use Cons.prems in simp)
    then show ?thesis using first a Inr by (auto intro: emits_trans)
  qed
qed

lemma emits_latest_try:
  assumes "fst (fetch_bitcoin_news w s) = Inr fetched"
  shows "emits (latest_reply w (top_five fetched)) s (snd (latest_news_try w s))"
  unfolding latest_news_try_def
proof (intro and_then_emits)
  show "emits (latest_reply w (top_five fetched)) s (snd (fetch_bitcoin_news w s))" by simp
next
  fix v s1
  assume "fetch_bitcoin_news w s = (Inr v, s1)"
  then have v: "v = fetched" using assms by simp
  show "emits (latest_reply w (top_five fetched)) s1 (snd (pure (first_five v) s1))" by simp
  fix articles s2
  assume "pure (first_five v) s1 = (Inr articles, s2)"
  then have five: "first_five fetched = Inr articles" by (simp add: pure_def v)
  let ?Q = "latest_reply w (top_five fetched)"
  have notice: "emits ?Q t (snd (reply_text w m t))" if "is_notice m" for m t
    by (rule emits_reply) (use that in \<open>simp add: latest_reply_def\<close>)
  have loop: "emits ?Q s2
      (snd (and_then (pure (iterate articles) s2) (\<lambda>arts s.
            and_then (latest_loop w arts [] s) (\<lambda>sent_articles s.
            and_then (if sent_articles = [] then reply_text w no_new_news s else (Inr (), s))
              (\<lambda>_ s. (Inr (), commit s))))))"
  proof (intro and_then_emits)
    show "emits ?Q s2 (snd (pure (iterate articles) s2))" by simp
  next
    fix arts s3
    assume "pure (iterate articles) s2 = (Inr arts, s3)"
    then have "top_five fetched = arts"
      by (simp add: pure_def top_five_def candidates_def five)
    then show "emits ?Q s3 (snd (latest_loop w arts [] s3))"
      using emits_latest_loop [of arts arts w s3 "[]"] by simp
  next
    fix sent s4
    show "emits ?Q s4
        (snd (if sent = [] then reply_text w no_new_news s4 else (Inr (), s4)))"
      using notice [of no_new_news s4] by (simp add: is_notice_def)
  qed simp
  show "emits ?Q s2
      (snd (if \<not> truthy articles then reply_text w news_not_found s2
            else and_then (pure (iterate articles) s2) (\<lambda>arts s.
            and_then (latest_loop w arts [] s) (\<lambda>sent_articles s.
            and_then (if sent_articles = [] then reply_text w no_new_news s else (Inr (), s))
              (\<lambda>_ s. (Inr (), commit s))))))"
    using loop notice [of news_not_found s2]
    by (cases "truthy articles") (simp_all add: is_notice_def)
qed

lemma emits_latest:
  assumes "fst (fetch_bitcoin_news w s) = Inr fetched"
  shows "emits (latest_reply w (top_five fetched)) s (snd (latest_news w s))"
proof (cases "latest_news_try w s")
  case (Pair r s1)
  then have e: "emits (latest_reply w (top_five fetched)) s s1"
    using emits_latest_try [OF assms] by simp
  have "emits (latest_reply w (top_five fetched)) s1 (emit LogError s1)"
    by (rule emits_emit) (simp add: messages_are_def)
  moreover have "emits (latest_reply w (top_five fetched)) (emit LogError s1)
      (snd (reply_text w fetch_error (emit LogError s1)))"
    by (rule emits_reply) (simp add: latest_reply_def is_notice_def)
  ultimately have "emits (latest_reply w (top_five fetched)) s
      (snd (reply_text w fetch_error (emit LogError s1)))"
    using e by (blast intro: emits_trans)
  then show ?thesis using e Pair
    by (cases r) (simp_all add: latest_news_def)
qed

text \<open>
  The date of a notification: two digits each for day, month, hour and minute, and four
  for a year from 1000 on, as in \<open>05.03.2024 07:09\<close>.
\<close>

lemma digit_char_range: "48 \<le> digit_char n \<and> digit_char n \<le> 57"
  by (simp add: digit_char_def)

lemma strftime_format:
  assumes "1000 \<le> year dt" "year dt \<le> 9999"
  shows "\<exists>d1 d2 m1 m2 y1 y2 y3 y4 h1 h2 n1 n2.
           strftime dt = [d1, d2, 0x2E, m1, m2, 0x2E, y1, y2, y3, y4, 0x20, h1, h2, 0x3A, n1, n2]
         \<and> list_all (\<lambda>c. 48 \<le> c \<and> c \<le> 57) [d1, d2, m1, m2, y1, y2, y3, y4, h1, h2, n1, n2]"
  by (simp add: strftime_def two_digits_def decimal_four_digits [OF assms] ascii_def
      digit_char_range)

text \<open>
  C6, as the code has it. Every message sent by a scheduled run holds the translated
  title, the source name, the date as \<open>strftime('%d.%m.%Y %H:%M')\<close> prints it and the
  link in parentheses after its label, all of one candidate of the batch. Every reply of \<open>/latest\<close> is one
  of the three notices, or it is the text made of the translated title and the link of one
  of the first five candidates: the newspaper sign, the title between asterisks, a line
  break, and the link in parentheses after its label.
\<close>

theorem notification_contents:
  "(fst (fetch_bitcoin_news w s) = Inr fetched
      \<and> SendMessage c m \<in> set (new_events s (snd (check_and_send_news w chat_id s)))
     \<longrightarrow> shows_scheduled w (candidates fetched) m)
   \<and> (fst (fetch_bitcoin_news w s) = Inr fetched
      \<and> ReplyText m \<in> set (new_events s (snd (latest_news w s)))
     \<longrightarrow> latest_reply w (top_five fetched) m)"
proof (intro conjI impI)
  assume "fst (fetch_bitcoin_news w s) = Inr fetched
      \<and> SendMessage c m \<in> set (new_events s (snd (check_and_send_news w chat_id s)))"
  then show "shows_scheduled w (candidates fetched) m"
    using emits_new_events [OF emits_check, of w s fetched "SendMessage c m" chat_id]
    by (simp add: messages_are_def)
next
  assume "fst (fetch_bitcoin_news w s) = Inr fetched
      \<and> ReplyText m \<in> set (new_events s (snd (latest_news w s)))"
  then show "latest_reply w (top_five fetched) m"
    using emits_new_events [OF emits_latest, of w s fetched "ReplyText m"]
    by (simp add: messages_are_def)
qed


theorem notification_contents_witness:
  "fst (fetch_bitcoin_news (serving (JList [sample_article ''A'' ''u''])) (startup None))
     = Inr (JList [sample_article ''A'' ''u''])
   \<and> candidates (JList [sample_article ''A'' ''u'']) = [sample_article ''A'' ''u'']
   \<and> top_five (JList [sample_article ''A'' ''u'']) = [sample_article ''A'' ''u'']
   \<and> SendMessage 7 sample_scheduled_text
       \<in> set (new_events (startup None)
            (snd (check_and_send_news (serving (JList [sample_article ''A'' ''u''])) 7
               (startup None))))
   \<and> shows_scheduled (serving (JList [sample_article ''A'' ''u''])) [sample_article ''A'' ''u'']
        sample_scheduled_text
   \<and> ReplyText sample_latest_text
       \<in> set (new_events (startup None)
            (snd (latest_news (serving (JList [sample_article ''A'' ''u''])) (startup None))))
   \<and> latest_reply (serving (JList [sample_article ''A'' ''u''])) [sample_article ''A'' ''u'']
        sample_latest_text"
proof -
  let ?w = "serving (JList [sample_article ''A'' ''u''])"
  have f: "fst (fetch_bitcoin_news ?w (startup None)) = Inr (JList [sample_article ''A'' ''u''])"
    by (simp add: run_defs)
  have c: "candidates (JList [sample_article ''A'' ''u'']) = [sample_article ''A'' ''u'']"
    "top_five (JList [sample_article ''A'' ''u'']) = [sample_article ''A'' ''u'']"
    by (simp_all add: candidates_def top_five_def iterate_def first_five_def)
  have s: "SendMessage 7 sample_scheduled_text
      \<in> set (new_events (startup None) (snd (check_and_send_news ?w 7 (startup None))))"
    by (simp add: run_defs sample_time sample_date new_events_def)
  have r: "ReplyText sample_latest_text
      \<in> set (new_events (startup None) (snd (latest_news ?w (startup None))))"
    by (simp add: run_defs sample_time new_events_def)
  show ?thesis
    using notification_contents [of ?w "startup None" "JList [sample_article ''A'' ''u'']" 7
        sample_scheduled_text 7]
      notification_contents [of ?w "startup None" "JList [sample_article ''A'' ''u'']" 7
        sample_latest_text 7] f c s r
    by simp
qed

text \<open>
  C6 as stated fails in on-demand mode. For the sample article, from CoinDesk and dated
  \<open>05.03.2024 07:09\<close>, the reply of \<open>/latest\<close> is the text of title and link, which holds
  neither the source name nor the date; the message of the scheduled job holds both.
\<close>

theorem latest_message_without_source_counterexample:
  "replies (events (snd (latest_news (serving (JList [sample_article ''A'' ''u''])) (startup None))))
     = [sample_latest_text]
   \<and> read_article_fields offline (sample_article ''A'' ''u'') (startup None)
     = (Inr \<lparr>na_id = sample_id, na_title = JStr (ascii ''A''), na_url = JStr (ascii ''u''),
              na_source = JStr (ascii ''CoinDesk''),
              na_published_at =
                \<lparr>year = 2024, month = 3, day = 5, hour = 7, minute = 9, second = 59\<rparr>\<rparr>,
        startup None)
   \<and> strftime \<lparr>year = 2024, month = 3, day = 5, hour = 7, minute = 9, second = 59\<rparr>
     = ascii ''05.03.2024 07:09''
   \<and> \<not> sublist (ascii ''CoinDesk'') sample_latest_text
   \<and> \<not> sublist (ascii ''05.03.2024 07:09'') sample_latest_text
   \<and> deliveries (events (snd (check_and_send_news
        (serving (JList [sample_article ''A'' ''u''])) 7 (startup None))))
     = [SendMessage 7 sample_scheduled_text]
   \<and> sublist (ascii ''CoinDesk'') sample_scheduled_text
   \<and> sublist (ascii ''05.03.2024 07:09'') sample_scheduled_text"
proof -
  have "replies (events (snd (latest_news (serving (JList [sample_article ''A'' ''u'']))
            (startup None))))
     = [sample_latest_text]"
    by (simp add: run_defs sample_time)
  moreover have "read_article_fields offline (sample_article ''A'' ''u'') (startup None)
     = (Inr \<lparr>na_id = sample_id, na_title = JStr (ascii ''A''), na_url = JStr (ascii ''u''),
              na_source = JStr (ascii ''CoinDesk''),
              na_published_at =
                \<lparr>year = 2024, month = 3, day = 5, hour = 7, minute = 9, second = 59\<rparr>\<rparr>,
        startup None)"
    by (simp add: run_defs sample_time)
  moreover have "strftime \<lparr>year = 2024, month = 3, day = 5, hour = 7, minute = 9, second = 59\<rparr>
     = ascii ''05.03.2024 07:09''"
    by (simp add: sample_date ascii_def)
  moreover have "\<not> sublist (ascii ''CoinDesk'') sample_latest_text"
    by (simp add: sample_latest_text_def newspaper_def read_article_def ascii_def
        sublist_Cons_right prefix_Cons)
  moreover have "\<not> sublist (ascii ''05.03.2024 07:09'') sample_latest_text"
    by (simp add: sample_latest_text_def newspaper_def read_article_def ascii_def
        sublist_Cons_right prefix_Cons)
  moreover have "deliveries (events (snd (check_and_send_news
        (serving (JList [sample_article ''A'' ''u''])) 7 (startup None))))
     = [SendMessage 7 sample_scheduled_text]"
    by (simp add: run_defs sample_time sample_date)
  moreover have "sublist (ascii ''CoinDesk'') sample_scheduled_text"
    unfolding sublist_def sample_scheduled_text_def
    by (intro exI [of _ "newspaper @ ascii ''*A*'' @ [0x0A] @ source_label"] exI) (simp add: ascii_def)
  moreover have "sublist (ascii ''05.03.2024 07:09'') sample_scheduled_text"
    unfolding sublist_def sample_scheduled_text_def
    by (intro exI [of _ "newspaper @ ascii ''*A*'' @ [0x0A] @ source_label @ ascii ''CoinDesk_''
          @ [0x0A] @ date_label"] exI) (simp add: ascii_def)
  ultimately show ?thesis by blast
qed

section \<open>The scheduled run commits each row and does not repeat itself\<close>

text \<open>
  What \<open>latest_news\<close> misses, \<open>check_and_send_news\<close> does. It commits after every
  \<open>INSERT\<close>: a run that starts with no open transaction ends with none, whatever is
  raised on the way. And a scheduled run that raised nothing has recorded every article
  it sent: the next run on the same value fetched sends no message.
\<close>

lemma translate_text_store:
  "translate_text w t s = (r, s') \<Longrightarrow> committed s' = committed s \<and> pending s' = pending s"
  by (auto simp: translate_text_def Let_def emit_def split: if_splits sum.splits json.splits)

lemma send_article_pending:
  assumes "pending s = []"
  shows "pending (snd (send_article w c a s)) = []"
proof -
  obtain y s1 where tr: "translate_text w (na_title a) s = (y, s1)"
    by (cases "translate_text w (na_title a) s")
  have "pending s1 = []" using translate_text_store [OF tr] assms by simp
  then show ?thesis
    by (cases y)
       (simp_all add: send_article_def and_then_def tr send_message_def execute_insert_def
          commit_def emit_def split: list.splits)
qed

lemma send_new_pending: "pending s = [] \<Longrightarrow> pending (snd (send_new w c as s)) = []"
proof (induction as arbitrary: s)
  case Nil
  then show ?case by simp
next
  case (Cons a as)
  obtain x s1 where a: "send_article w c a s = (x, s1)"
    by (cases "send_article w c a s")
  then have "pending s1 = []"
    using send_article_pending [OF Cons.prems, of w c a] by simp
  then show ?case using a Cons.IH [of s1] by (cases x) simp_all
qed

lemma collect_new_store:
  "committed (snd (collect_new w as acc s)) = committed s
   \<and> pending (snd (collect_new w as acc s)) = pending s"
proof (induction as arbitrary: acc s)
  case Nil
  show ?case by simp
next
  case (Cons a as)
  have r: "read_article_fields w a s = (fst (read_article_fields w a s), s)"
    by (rule read_article_fields_pair)
  show ?case
  proof (cases "fst (read_article_fields w a s)")
    case (Inl e)
    then have "read_article_fields w a s = (Inl e, s)" using r by simp
    then show ?thesis using Cons.IH [of acc "emit LogError s"] by (simp add: emit_def)
  next
    case (Inr na)
    then have "read_article_fields w a s = (Inr na, s)" using r by simp
    then show ?thesis using Cons.IH by simp
  qed
qed

lemma check_and_send_news_pending:
  assumes "pending s = []"
  shows "pending (snd (check_and_send_news w c s)) = []"
proof -
  obtain fetched s1 where f: "fetch_bitcoin_news w s = (Inr fetched, s1)"
    using fetch_bitcoin_news_returns [of w s] by blast
  have p1: "pending s1 = []" using fetch_bitcoin_news_state [OF f] assms by simp
  have loop: "pending (snd (case collect_new w arts [] s1 of
                   (new_articles, s2) \<Rightarrow> send_new w c new_articles s2)) = []" for arts
  proof -
    obtain nas s2 where c: "collect_new w arts [] s1 = (nas, s2)"
      by (cases "collect_new w arts [] s1")
    have "pending s2 = []" using collect_new_store [of w arts "[]" s1] p1 by (simp add: c)
    then have "pending (snd (send_new w c nas s2)) = []" by (rule send_new_pending)
    then show ?thesis by (simp add: c)
  qed
  have "pending (snd (check_and_send_news_try w c s)) = []"
    using p1 loop
    by (cases "iterate fetched")
       (simp_all add: check_and_send_news_try_def and_then_def pure_def f emit_def)
  then show ?thesis
    by (cases "check_and_send_news_try w c s")
       (auto simp: check_and_send_news_def emit_def split: sum.splits)
qed

lemma select_id_store_step:
  assumes "store_step s s'" "select_id s n"
  shows "select_id s' n"
proof -
  have "set (rows s) \<subseteq> set (rows s')"
    using assms(1) by (auto simp: store_step_def dest: set_mono_prefix)
  then show ?thesis using assms(2) by (auto simp: select_id_def rows_def)
qed

lemma send_article_recorded:
  assumes "send_article w c a s = (Inr u, s')"
  shows "select_id s' (na_id a)"
proof -
  obtain y s1 where tr: "translate_text w (na_title a) s = (y, s1)"
    by (cases "translate_text w (na_title a) s")
  show ?thesis
    using assms
    by (cases y)
       (auto simp: send_article_def and_then_def tr send_message_def execute_insert_def
          commit_def emit_def select_id_def split: if_splits list.splits)
qed

lemma send_new_recorded:
  "send_new w c as s = (Inr u, s') \<Longrightarrow> na \<in> set as \<Longrightarrow> select_id s' (na_id na)"
proof (induction as arbitrary: s)
  case Nil
  then show ?case by simp
next
  case (Cons a as)
  obtain x s1 where a: "send_article w c a s = (x, s1)"
    by (cases "send_article w c a s")
  show ?case
  proof (cases x)
    case (Inl e)
    then show ?thesis using Cons.prems a by simp
  next
    case (Inr v)
    then have rest: "send_new w c as s1 = (Inr u, s')" using Cons.prems a by simp
    show ?thesis
    proof (cases "na = a")
      case True
      have "select_id s1 (na_id a)" using a Inr by (auto intro: send_article_recorded)
      moreover have "store_step s1 s'"
        using store_step_send_new [of s1 w c as] rest by simp
      ultimately show ?thesis using True by (auto intro: select_id_store_step)
    next
      case False
      then show ?thesis using Cons.IH [OF rest] Cons.prems by simp
    qed
  qed
qed

lemma collect_new_all_seen:
  assumes "\<And>a na. a \<in> set as \<Longrightarrow> fst (read_article_fields w a s) = Inr na
             \<Longrightarrow> select_id s (na_id na)"
  shows "fst (collect_new w as [] s) = []"
  using assms by (auto simp: collect_new_fst split: sum.splits)

lemma read_article_fields_world:
  "py_repr w' = py_repr w \<Longrightarrow> read_article_fields w' = read_article_fields w"
  by (intro ext) (simp add: read_article_fields_def)

lemma scheduled_repeat_sends_nothing:
  assumes run1: "check_and_send_news_try w1 c1 s = (Inr u, s1)"
    and f1: "fst (fetch_bitcoin_news w1 s) = Inr fetched"
    and f2: "fst (fetch_bitcoin_news w2 s1) = Inr fetched"
    and repr: "py_repr w2 = py_repr w1"
  shows "deliveries (events (snd (check_and_send_news w2 c2 s1))) = deliveries (events s1)"
proof -
  obtain sa where fa: "fetch_bitcoin_news w1 s = (Inr fetched, sa)"
    using f1 by (cases "fetch_bitcoin_news w1 s") simp
  obtain sb where fb: "fetch_bitcoin_news w2 s1 = (Inr fetched, sb)"
    using f2 by (cases "fetch_bitcoin_news w2 s1") simp
  have sb: "committed sb = committed s1" "pending sb = pending s1"
    "deliveries (events sb) = deliveries (events s1)"
    using fetch_bitcoin_news_state [OF fb] by simp_all
  have rd: "read_article_fields w2 = read_article_fields w1"
    using repr by (rule read_article_fields_world)
  show ?thesis
  proof (cases "truthy fetched")
    case False
    then have "check_and_send_news w2 c2 s1 = (Inr (), emit LogInfo sb)"
      by (simp add: check_and_send_news_def check_and_send_news_try_def and_then_def fb)
    then show ?thesis using sb by (simp add: emit_def deliveries_def)
  next
    case True
    show ?thesis
    proof (cases "iterate fetched")
      case (Inl e)
      then have "check_and_send_news w2 c2 s1 = (Inr (), emit LogError sb)"
        by (simp add: check_and_send_news_def check_and_send_news_try_def and_then_def pure_def
            fb True)
      then show ?thesis using sb by (simp add: emit_def deliveries_def)
    next
      case (Inr arts)
      obtain nas sc where c1: "collect_new w1 arts [] sa = (nas, sc)"
        by (cases "collect_new w1 arts [] sa")
      have sc: "committed sc = committed sa" "pending sc = pending sa"
        using collect_new_store [of w1 arts "[]" sa] by (simp_all add: c1)
      have send1: "send_new w1 c1 nas sc = (Inr u, s1)"
        using run1 True
        by (simp add: check_and_send_news_try_def and_then_def pure_def fa Inr c1)
      have step: "store_step sc s1"
        using store_step_send_new [of sc w1 c1 nas] send1 by simp
      have seen: "select_id sb (na_id na)"
        if a: "a \<in> set arts" and r: "fst (read_article_fields w2 a sb) = Inr na" for a na
      proof -
        have r': "fst (read_article_fields w1 a sa) = Inr na"
          using r read_article_fields_fst [of w1 a sa sb] by (simp add: rd)
        have "select_id s1 (na_id na)"
        proof (cases "select_id sa (na_id na)")
          case True
          then have "select_id sc (na_id na)" using sc by (simp add: select_id_def)
          then show ?thesis using step by (rule select_id_store_step [rotated])
        next
          case new: False
          have "na \<in> set (fst (collect_new w1 arts [] sa))"
            using a r' new by (force simp: collect_new_fst)
          then have "na \<in> set nas" by (simp add: c1)
          then show ?thesis using send1 by (auto intro: send_new_recorded)
        qed
        then show ?thesis using sb by (simp add: select_id_def)
      qed
      have none: "fst (collect_new w2 arts [] sb) = []"
        by (rule collect_new_all_seen) (use seen in blast)
      obtain sd where c2: "collect_new w2 arts [] sb = ([], sd)"
        using none by (cases "collect_new w2 arts [] sb") simp
      have "emits (\<lambda>m. False) sb sd"
        using emits_collect [of "\<lambda>m. False" sb w2 arts "[]"] by (simp add: c2)
      then obtain new where new: "events sd = events sb @ new"
        "\<forall>e\<in>set new. messages_are (\<lambda>m. False) e"
        by (auto simp: emits_def)
      have "deliveries new = []"
        unfolding deliveries_def filter_empty_conv
        using new(2) by (auto simp: messages_are_def split: event.splits)
      then have d: "deliveries (events sd) = deliveries (events sb)"
        using new(1) by (simp add: deliveries_def)
      have "check_and_send_news w2 c2 s1 = (Inr (), sd)"
        using True
        by (simp add: check_and_send_news_def check_and_send_news_try_def and_then_def pure_def
            fb Inr c2)
      then show ?thesis using d sb by simp
    qed
  qed
qed

end
